theory Spec2Isabelle
  imports Main
begin

section \<open>JavaScript values\<close>

text \<open>
  The component \<^verbatim>\<open>Ext.ux.form.field.MeridiemTime\<close> (file
  \<^verbatim>\<open>src/ux/form/field/MeridiemTime.js\<close>) passes around raw strings, Date
  objects, \<^verbatim>\<open>null\<close> and \<^verbatim>\<open>undefined\<close>. A Date object is read
  through its local-time accessors; the record below holds what they return
  (\<^verbatim>\<open>getMonth\<close> counts from 0, \<^verbatim>\<open>getDate\<close> from 1). Local time is
  taken without daylight-saving shifts.
\<close>

record date =
  getFullYear :: int
  getMonth :: nat
  getDate :: nat
  getHours :: nat
  getMinutes :: nat
  getSeconds :: nat
  getMilliseconds :: nat

datatype jsval = Undefined | Null | Str string | DateV date

datatype js_error = TypeError

text \<open>JavaScript truthiness: \<^verbatim>\<open>!v\<close> is \<open>\<not> truthy v\<close>.\<close>

fun truthy :: "jsval \<Rightarrow> bool" where
  "truthy Undefined = False"
| "truthy Null = False"
| "truthy (Str s) = (s \<noteq> [])"
| "truthy (DateV d) = True"

text \<open>\<^verbatim>\<open>Ext.isDate\<close> and \<^verbatim>\<open>Ext.isString\<close> test the kind of a value.\<close>

fun isDate :: "jsval \<Rightarrow> bool" where
  "isDate (DateV d) = True"
| "isDate v = False"

fun isString :: "jsval \<Rightarrow> bool" where
  "isString (Str s) = True"
| "isString v = False"

text \<open>
  The string a value turns into when \<^verbatim>\<open>+\<close> appends it to a string. The
  meridiem value of the component is a string or \<^verbatim>\<open>undefined\<close>.
\<close>

fun toStr :: "string option \<Rightarrow> string" where
  "toStr None = ''undefined''"
| "toStr (Some s) = s"

section \<open>The calendar arithmetic of Date setters\<close>

definition isLeapYear :: "int \<Rightarrow> bool" where
  "isLeapYear y = (y mod 4 = 0 \<and> (y mod 100 \<noteq> 0 \<or> y mod 400 = 0))"

definition daysInMonth :: "int \<Rightarrow> nat \<Rightarrow> nat" where
  "daysInMonth y m =
     (if m = 1 then (if isLeapYear y then 29 else 28)
      else if m = 3 \<or> m = 5 \<or> m = 8 \<or> m = 10 then 30 else 31)"

text \<open>
  ECMAScript's \<^verbatim>\<open>MakeDay(year, month, date)\<close>: a month beyond December carries
  into the year, a day beyond the end of the month carries into the next month, day 0
  is the last day of the month before.
\<close>

function MakeDay :: "int \<Rightarrow> nat \<Rightarrow> nat \<Rightarrow> int \<times> nat \<times> nat" where
  "MakeDay y m d =
     (if 12 \<le> m then MakeDay (y + 1) (m - 12) d
      else if d = 0 then
        (if m = 0 then (y - 1, 11, 31) else (y, m - 1, daysInMonth y (m - 1)))
      else if daysInMonth y m < d then MakeDay y (Suc m) (d - daysInMonth y m)
      else (y, m, d))"
  by pat_completeness auto
termination
  by (relation "measure (\<lambda>(y, m, d). 13 * d + m)") (auto simp: daysInMonth_def)

declare MakeDay.simps [simp del]

definition withDay :: "date \<Rightarrow> int \<times> nat \<times> nat \<Rightarrow> date" where
  "withDay dt ymd =
     (case ymd of (y, m, d) \<Rightarrow> dt\<lparr>getFullYear := y, getMonth := m, getDate := d\<rparr>)"

definition setDate :: "nat \<Rightarrow> date \<Rightarrow> date" where
  "setDate d dt = withDay dt (MakeDay (getFullYear dt) (getMonth dt) d)"

definition setMonth :: "nat \<Rightarrow> date \<Rightarrow> date" where
  "setMonth m dt = withDay dt (MakeDay (getFullYear dt) m (getDate dt))"

definition setFullYear :: "int \<Rightarrow> date \<Rightarrow> date" where
  "setFullYear y dt = withDay dt (MakeDay y (getMonth dt) (getDate dt))"

text \<open>
  \<^verbatim>\<open>setSeconds(s)\<close>: seconds beyond 59 carry into the minutes, the hours and the
  day.
\<close>

definition setSeconds :: "nat \<Rightarrow> date \<Rightarrow> date" where
  "setSeconds s dt =
     (let mi = getMinutes dt + s div 60;
          h = getHours dt + mi div 60
      in (withDay dt (MakeDay (getFullYear dt) (getMonth dt) (getDate dt + h div 24)))
           \<lparr>getHours := h mod 24, getMinutes := mi mod 60, getSeconds := s mod 60\<rparr>)"

text \<open>
  \<^verbatim>\<open>getTime()\<close>: milliseconds since 1 January 1970, from the day number of the
  civil date.
\<close>

definition dayNumber :: "int \<Rightarrow> nat \<Rightarrow> nat \<Rightarrow> int" where
  "dayNumber y m d =
     (let y' = (if m \<le> 1 then y - 1 else y);
          mp = (int m + 10) mod 12
      in 365 * y' + y' div 4 - y' div 100 + y' div 400 + (153 * mp + 2) div 5
           + int d - 1 - 719468)"

definition getTime :: "date \<Rightarrow> int" where
  "getTime dt =
     (((dayNumber (getFullYear dt) (getMonth dt) (getDate dt) * 24 + int (getHours dt)) * 60
        + int (getMinutes dt)) * 60 + int (getSeconds dt)) * 1000 + int (getMilliseconds dt)"

definition validDate :: "date \<Rightarrow> bool" where
  "validDate dt =
     (getMonth dt < 12 \<and> 1 \<le> getDate dt \<and> getDate dt \<le> daysInMonth (getFullYear dt) (getMonth dt)
      \<and> getHours dt < 24 \<and> getMinutes dt < 60 \<and> getSeconds dt < 60
      \<and> getMilliseconds dt < 1000)"

section \<open>The framework functions the component calls\<close>

text \<open>
  \<^verbatim>\<open>Ext.Date.parse(input, format, strict)\<close> and
  \<^verbatim>\<open>Ext.Date.format(date, format)\<close> (alias \<^verbatim>\<open>dateFormat\<close>) belong to the
  Ext JS framework, not to this repository. The component is modelled over any pair of
  such functions: \<open>Date_parse\<close> returns the parsed Date or nothing (a falsy result),
  \<open>Date_format\<close> returns text. The third argument of \<open>Date_parse\<close> is
  \<^verbatim>\<open>this.useStrict\<close>, which is \<^verbatim>\<open>undefined\<close> unless configured.
\<close>

record extdate =
  Date_parse :: "string \<Rightarrow> string \<Rightarrow> bool option \<Rightarrow> date option"
  Date_format :: "jsval \<Rightarrow> string \<Rightarrow> string"

text \<open>
  \<^verbatim>\<open>Ext.String.format(template, args...)\<close> replaces every \<^verbatim>\<open>{n}\<close> (n a
  run of digits) of the template by the n-th argument, as its regular expression
  \<^verbatim>\<open>/\{(\d+)\}/g\<close> does; a missing argument prints as \<^verbatim>\<open>undefined\<close>.
\<close>

definition isDigit :: "char \<Rightarrow> bool" where
  "isDigit c = (48 \<le> (of_char c :: nat) \<and> (of_char c :: nat) \<le> 57)"

definition digitVal :: "char \<Rightarrow> nat" where
  "digitVal c = (of_char c :: nat) - 48"

fun parseInt :: "nat \<Rightarrow> string \<Rightarrow> nat" where
  "parseInt acc [] = acc"
| "parseInt acc (c # cs) = parseInt (10 * acc + digitVal c) cs"

definition placeholder :: "string \<Rightarrow> (nat \<times> string) option" where
  "placeholder cs =
     (let ds = takeWhile isDigit cs; rest = dropWhile isDigit cs
      in if ds \<noteq> [] \<and> rest \<noteq> [] \<and> hd rest = CHR ''}''
         then Some (parseInt 0 ds, tl rest) else None)"

lemma placeholder_shorter: "placeholder cs = Some (n, rest) \<Longrightarrow> length rest < Suc (length cs)"
proof -
  assume "placeholder cs = Some (n, rest)"
  then have "rest = tl (dropWhile isDigit cs)"
    by (auto simp: placeholder_def Let_def split: if_splits)
  moreover have "length (dropWhile isDigit cs) \<le> length cs"
    by (rule length_dropWhile_le)
  ultimately show ?thesis by simp
qed

function String_format :: "string \<Rightarrow> string list \<Rightarrow> string" where
  "String_format [] args = []"
| "String_format (c # cs) args =
     (if c = CHR ''{'' then
        (case placeholder cs of
           Some (n, rest) \<Rightarrow>
             (if n < length args then args ! n else ''undefined'') @ String_format rest args
         | None \<Rightarrow> c # String_format cs args)
      else c # String_format cs args)"
  by pat_completeness auto
termination
  by (relation "measure (\<lambda>(t, args). length t)") (auto dest: placeholder_shorter)

section \<open>The component\<close>

text \<open>
  The fields of the component object \<^verbatim>\<open>me\<close> that its time logic reads and
  writes. \<open>rawValue\<close> is the text of the input element, \<open>fieldValue\<close> the
  framework's \<^verbatim>\<open>me.value\<close>, \<open>events\<close> the events fired so far with their
  payload. \<open>altFormats\<close> is a string, falsy when empty; \<open>meridiemValue\<close>,
  \<open>altFormatsArray\<close>, \<open>useStrict\<close>, \<open>invalidTextFormat\<close> and
  \<open>maxLength\<close> are \<^verbatim>\<open>undefined\<close> until something sets them.
\<close>

record MeridiemTime =
  format :: string
  captureSeconds :: bool
  captureSecondsFormat :: string
  altFormats :: string
  altFormatsArray :: "string list option"
  useStrict :: "bool option"
  minText :: string
  maxText :: string
  invalidText :: string
  invalidTextFormat :: "string option"
  maxLength :: "nat option"
  minValue :: jsval
  maxValue :: jsval
  meridiemValue :: "string option"
  rawValue :: string
  fieldValue :: jsval
  events :: "(string \<times> jsval) list"

text \<open>
  \<^verbatim>\<open>clearDate\<close> (lines 406-423): a Date gets the day, month and year of
  \<^verbatim>\<open>new Date()\<close> (here \<open>today\<close>), in this order, and loses its seconds unless
  the field captures seconds; any other value is returned as it is.
\<close>

definition clearDate :: "MeridiemTime \<Rightarrow> date \<Rightarrow> jsval \<Rightarrow> jsval" where
  "clearDate me today v =
     (case v of
        DateV dt \<Rightarrow>
          (let d1 = setDate (getDate today) dt;
               d2 = setMonth (getMonth today) d1;
               d3 = setFullYear (getFullYear today) d2
           in DateV (if \<not> captureSeconds me then setSeconds 0 d3 else d3))
      | _ \<Rightarrow> v)"

text \<open>\<^verbatim>\<open>safeParse\<close> (lines 319-323).\<close>

definition safeParse :: "extdate \<Rightarrow> MeridiemTime \<Rightarrow> date \<Rightarrow> string \<Rightarrow> string \<Rightarrow> jsval" where
  "safeParse lib me today value fmt =
     (case Date_parse lib value fmt (useStrict me) of
        Some parsedDate \<Rightarrow> clearDate me today (DateV parsedDate)
      | None \<Rightarrow> Null)"

text \<open>\<^verbatim>\<open>String.prototype.split\<close> on a one-character separator.\<close>

fun split :: "char \<Rightarrow> string \<Rightarrow> string list" where
  "split sep [] = [[]]"
| "split sep (c # cs) =
     (if c = sep then [] # split sep cs
      else (case split sep cs of w # ws \<Rightarrow> (c # w) # ws | [] \<Rightarrow> [[c]]))"

text \<open>
  The loop of \<^verbatim>\<open>parseDate\<close> (lines 349-351):
  \<^verbatim>\<open>for (i = 0; i < length && !parsedValue; ++i)\<close>.
\<close>

function altLoop ::
  "extdate \<Rightarrow> MeridiemTime \<Rightarrow> date \<Rightarrow> string \<Rightarrow> string list \<Rightarrow> nat \<Rightarrow> jsval \<Rightarrow> jsval" where
  "altLoop lib me today input fmts i parsedValue =
     (if i < length fmts \<and> \<not> truthy parsedValue
      then altLoop lib me today input fmts (Suc i) (safeParse lib me today input (fmts ! i))
      else parsedValue)"
  by pat_completeness auto
termination
  by (relation "measure (\<lambda>(lib, me, today, input, fmts, i, p). length fmts - i)") auto

declare altLoop.simps [simp del]

text \<open>
  \<^verbatim>\<open>parseDate\<close> (lines 327-356). A falsy value and a Date are returned as they
  are; any other value (a non-empty string) gets the meridiem appended and is parsed
  with the configured format, then with the alternatives.
\<close>

definition parseDate :: "extdate \<Rightarrow> MeridiemTime \<Rightarrow> date \<Rightarrow> jsval \<Rightarrow> jsval" where
  "parseDate lib me today value =
     (if \<not> truthy value \<or> isDate value then value
      else
        (let meridiem = meridiemValue me;
             input = (case value of Str s \<Rightarrow> s | _ \<Rightarrow> []) @ toStr meridiem;
             parsedValue = safeParse lib me today input (format me)
         in if \<not> truthy parsedValue \<and> altFormats me \<noteq> []
            then altLoop lib me today input
                   (case altFormatsArray me of
                      Some a \<Rightarrow> a
                    | None \<Rightarrow> split CHR ''|'' (altFormats me))
                   0 parsedValue
            else parsedValue))"

text \<open>\<^verbatim>\<open>formatDate\<close> (lines 360-362).\<close>

definition formatDate :: "extdate \<Rightarrow> MeridiemTime \<Rightarrow> jsval \<Rightarrow> jsval" where
  "formatDate lib me dt = (if isDate dt then Str (Date_format lib dt (format me)) else dt)"

text \<open>
  \<^verbatim>\<open>rawToValue\<close> (lines 307-309):
  \<^verbatim>\<open>this.parseDate(rawValue) || rawValue || null\<close>, and \<^verbatim>\<open>valueToRaw\<close>
  (lines 310-312).
\<close>

definition rawToValue :: "extdate \<Rightarrow> MeridiemTime \<Rightarrow> date \<Rightarrow> jsval \<Rightarrow> jsval" where
  "rawToValue lib me today raw =
     (if truthy (parseDate lib me today raw) then parseDate lib me today raw
      else if truthy raw then raw else Null)"

definition valueToRaw :: "extdate \<Rightarrow> MeridiemTime \<Rightarrow> date \<Rightarrow> jsval \<Rightarrow> jsval" where
  "valueToRaw lib me today value = formatDate lib me (parseDate lib me today value)"

text \<open>
  \<^verbatim>\<open>setMeridiemValue\<close> (lines 230-239); the update of the page element is left
  out.
\<close>

definition setMeridiemValue :: "MeridiemTime \<Rightarrow> string \<Rightarrow> MeridiemTime" where
  "setMeridiemValue me value = me\<lparr>meridiemValue := Some value\<rparr>"

text \<open>\<^verbatim>\<open>setMinValue\<close> and \<^verbatim>\<open>setMaxValue\<close> (lines 257-266).\<close>

definition setMinValue :: "extdate \<Rightarrow> MeridiemTime \<Rightarrow> date \<Rightarrow> jsval \<Rightarrow> MeridiemTime" where
  "setMinValue lib me today value =
     me\<lparr>minValue := (if isString value then parseDate lib me today value else value)\<rparr>"

definition setMaxValue :: "extdate \<Rightarrow> MeridiemTime \<Rightarrow> date \<Rightarrow> jsval \<Rightarrow> MeridiemTime" where
  "setMaxValue lib me today value =
     me\<lparr>maxValue := (if isString value then parseDate lib me today value else value)\<rparr>"

text \<open>
  \<^verbatim>\<open>initComponent\<close> (lines 114-153), without the settings of the picker and the
  width: bounds given as strings are parsed, then the configuration follows
  \<^verbatim>\<open>captureSeconds\<close>, and \<^verbatim>\<open>Ext.applyIf\<close> fills in
  \<^verbatim>\<open>invalidTextFormat\<close> where none is configured.
\<close>

definition initComponent :: "extdate \<Rightarrow> MeridiemTime \<Rightarrow> date \<Rightarrow> MeridiemTime" where
  "initComponent lib me today =
     (let me1 = (if isString (minValue me)
                 then me\<lparr>minValue := parseDate lib me today (minValue me)\<rparr> else me);
          me2 = (if isString (maxValue me)
                 then me1\<lparr>maxValue := parseDate lib me1 today (maxValue me)\<rparr> else me1);
          me3 = (if captureSeconds me2
                 then me2\<lparr>format := captureSecondsFormat me2,
                          altFormats := altFormats me2
                            @ ''|h:i:sA|hi:sA|h:isA|gisA|hisA|g:i:sA|gi:sA|g:isA'',
                          maxLength := Some 8\<rparr>
                 else me2\<lparr>maxLength := Some 5\<rparr>)
      in (case invalidTextFormat me3 of
            None \<Rightarrow>
              me3\<lparr>invalidTextFormat :=
                     Some (if captureSeconds me3 then ''HH:MM:SS AM/PM'' else ''HH:MM AM/PM'')\<rparr>
          | Some f \<Rightarrow> me3))"

text \<open>
  \<^verbatim>\<open>getErrors\<close> (lines 274-306). \<open>errors\<close> is what the parent class's
  \<^verbatim>\<open>getErrors\<close> returned. The candidate it formats (line 284) is
  \<^verbatim>\<open>value || me.processRawValue(me.getRawValue())\<close>: the value, or the text of
  the input element when the value is falsy. \<^verbatim>\<open>me.formatDate\<close> of a bound that
  is a Date is \<^verbatim>\<open>Ext.Date.dateFormat\<close> of it. Calling \<^verbatim>\<open>getTime\<close> on a
  bound that is a non-empty string, or reading \<^verbatim>\<open>length\<close> of
  \<^verbatim>\<open>undefined\<close>, raises a TypeError.
\<close>

definition candidate :: "MeridiemTime \<Rightarrow> jsval \<Rightarrow> jsval" where
  "candidate me value = (if truthy value then value else Str (rawValue me))"

definition checkMin ::
  "extdate \<Rightarrow> MeridiemTime \<Rightarrow> int \<Rightarrow> string list \<Rightarrow> js_error + string list" where
  "checkMin lib me time errors =
     (case minValue me of
        DateV m \<Rightarrow>
          Inr (if time < getTime m
               then errors @ [String_format (minText me) [Date_format lib (DateV m) (format me)]]
               else errors)
      | Str s \<Rightarrow> if s = [] then Inr errors else Inl TypeError
      | _ \<Rightarrow> Inr errors)"

definition checkMax ::
  "extdate \<Rightarrow> MeridiemTime \<Rightarrow> int \<Rightarrow> string list \<Rightarrow> js_error + string list" where
  "checkMax lib me time errors =
     (case maxValue me of
        DateV m \<Rightarrow>
          Inr (if getTime m < time
               then errors @ [String_format (maxText me) [Date_format lib (DateV m) (format me)]]
               else errors)
      | Str s \<Rightarrow> if s = [] then Inr errors else Inl TypeError
      | _ \<Rightarrow> Inr errors)"

definition invalidMessage :: "MeridiemTime \<Rightarrow> string \<Rightarrow> string" where
  "invalidMessage me formattedValue =
     String_format (invalidText me)
       [formattedValue @ '' '' @ toStr (meridiemValue me), toStr (invalidTextFormat me)]"

definition getErrors ::
  "extdate \<Rightarrow> MeridiemTime \<Rightarrow> date \<Rightarrow> string list \<Rightarrow> jsval \<Rightarrow> js_error + string list" where
  "getErrors lib me today errors value =
     (case formatDate lib me (candidate me value) of
        Null \<Rightarrow> Inr errors
      | Undefined \<Rightarrow> Inl TypeError
      | DateV d \<Rightarrow> Inr errors \<comment> \<open>never reached: formatDate returns no Date\<close>
      | Str formattedValue \<Rightarrow>
          (if length formattedValue < 1 then Inr errors
           else
             (case parseDate lib me today (Str formattedValue) of
                DateV parsedValue \<Rightarrow>
                  (case checkMin lib me (getTime parsedValue) errors of
                     Inl e \<Rightarrow> Inl e
                   | Inr errors1 \<Rightarrow> checkMax lib me (getTime parsedValue) errors1)
              | _ \<Rightarrow> Inr (errors @ [invalidMessage me formattedValue]))))"

text \<open>
  \<^verbatim>\<open>setValue\<close> (lines 194-217). \<^verbatim>\<open>rawValue.replace(/(AM|PM)$/i, '')\<close>
  drops a trailing AM or PM in either case, \<^verbatim>\<open>substring(length - 2)\<close> keeps the
  last two characters. The framework's \<^verbatim>\<open>setRawValue\<close> writes the text (the empty
  string for \<^verbatim>\<open>undefined\<close>) and the field mixin's \<^verbatim>\<open>setValue\<close> stores
  \<^verbatim>\<open>me.value\<close>; the change detection it starts is left out.
\<close>

definition toUpper :: "char \<Rightarrow> char" where
  "toUpper c =
     (if 97 \<le> (of_char c :: nat) \<and> (of_char c :: nat) \<le> 122
      then char_of ((of_char c :: nat) - 32) else c)"

definition stripMeridiem :: "string \<Rightarrow> string" where
  "stripMeridiem r =
     (if map toUpper (drop (length r - 2) r) = ''AM'' \<or> map toUpper (drop (length r - 2) r) = ''PM''
      then take (length r - 2) r else r)"

definition lastTwo :: "string \<Rightarrow> string" where
  "lastTwo r = drop (length r - 2) r"

definition setValue :: "extdate \<Rightarrow> MeridiemTime \<Rightarrow> date \<Rightarrow> jsval \<Rightarrow> MeridiemTime" where
  "setValue lib me today value =
     (let me1 =
            (case valueToRaw lib me today value of
               Str r \<Rightarrow>
                 (let me' = me\<lparr>rawValue := stripMeridiem r, fieldValue := Str (stripMeridiem r)\<rparr>
                  in if lastTwo r \<noteq> [] then setMeridiemValue me' (lastTwo r) else me')
             | _ \<Rightarrow> me\<lparr>rawValue := [], fieldValue := Undefined\<rparr>)
      in if meridiemValue me1 = None \<or> meridiemValue me1 = Some []
         then me1\<lparr>meridiemValue := Some (if 12 \<le> getHours today then ''PM'' else ''AM'')\<rparr>
         else me1)"

text \<open>
  The framework's \<^verbatim>\<open>getValue\<close> of a text field:
  \<^verbatim>\<open>me.rawToValue(me.processRawValue(me.getRawValue()))\<close>.
\<close>

definition getValue :: "extdate \<Rightarrow> MeridiemTime \<Rightarrow> date \<Rightarrow> jsval" where
  "getValue lib me today = rawToValue lib me today (Str (rawValue me))"

text \<open>
  \<^verbatim>\<open>onSelect\<close> (lines 464-478); \<open>meridiem\<close> is
  \<^verbatim>\<open>record.get('code')\<close>, and collapsing the picker is left out.
\<close>

definition onSelect :: "extdate \<Rightarrow> MeridiemTime \<Rightarrow> date \<Rightarrow> string \<Rightarrow> MeridiemTime" where
  "onSelect lib me today meridiem =
     (let value = getValue lib me today;
          me1 = setMeridiemValue me meridiem
      in if truthy value then
           (let newValue =
                  (case Date_parse lib (Date_format lib value ''his'' @ meridiem) ''hisA'' None of
                     Some d \<Rightarrow> DateV d
                   | None \<Rightarrow> Null);
                me2 = setValue lib me1 today newValue
            in me2\<lparr>events := events me2 @ [(''select'', newValue)]\<rparr>)
         else me1)"

section \<open>A reference instance of the framework's date functions\<close>

text \<open>
  An executable pair of date functions, for the witnesses and for the claims about what
  formatting and parsing do to a time; every other theorem holds for any pair. It covers
  the format codes that occur in the component's format strings, as the documentation of
  \<^verbatim>\<open>Ext.Date\<close> gives them: \<^verbatim>\<open>g\<close> the 12-hour clock hour without a leading
  zero, \<^verbatim>\<open>h\<close> the same with two digits, \<^verbatim>\<open>i\<close> and \<^verbatim>\<open>s\<close> minutes and
  seconds with two digits, \<^verbatim>\<open>A\<close> the meridiem; any other character stands for
  itself. Parsing matches the whole input against the pattern of the format (the
  alternatives of a code are tried in order), ignores case, lets the meridiem turn the
  hour into the 24-hour clock, and fills every field the format does not name from
  midnight of the current day. Formatting a value that is no Date gives the empty
  string.
\<close>

datatype capture = Hour nat | Minute nat | Second nat | Meridiem bool

definition codeAlts :: "char \<Rightarrow> string \<Rightarrow> (capture list \<times> string) list" where
  "codeAlts c inp =
     (if c = CHR ''g'' then
        (case inp of
           c1 # c2 # r \<Rightarrow>
             if c1 = CHR ''1'' \<and> (c2 = CHR ''0'' \<or> c2 = CHR ''1'' \<or> c2 = CHR ''2'')
             then [([Hour (10 + digitVal c2)], r)] else []
         | _ \<Rightarrow> [])
        @ (case inp of c1 # r \<Rightarrow> if isDigit c1 then [([Hour (digitVal c1)], r)] else [] | [] \<Rightarrow> [])
      else if c = CHR ''h'' then
        (case inp of
           c1 # c2 # r \<Rightarrow>
             if (c1 = CHR ''1'' \<and> (c2 = CHR ''0'' \<or> c2 = CHR ''1'' \<or> c2 = CHR ''2''))
                \<or> (c1 = CHR ''0'' \<and> isDigit c2 \<and> c2 \<noteq> CHR ''0'')
             then [([Hour (10 * digitVal c1 + digitVal c2)], r)] else []
         | _ \<Rightarrow> [])
      else if c = CHR ''i'' \<or> c = CHR ''s'' then
        (case inp of
           c1 # c2 # r \<Rightarrow>
             if isDigit c1 \<and> digitVal c1 \<le> 5 \<and> isDigit c2
             then [([(if c = CHR ''i'' then Minute else Second) (10 * digitVal c1 + digitVal c2)], r)]
             else []
         | _ \<Rightarrow> [])
      else if c = CHR ''A'' then
        (case inp of
           c1 # c2 # r \<Rightarrow>
             if (toUpper c1 = CHR ''A'' \<or> toUpper c1 = CHR ''P'') \<and> toUpper c2 = CHR ''M''
             then [([Meridiem (toUpper c1 = CHR ''A'')], r)] else []
         | _ \<Rightarrow> [])
      else
        (case inp of c1 # r \<Rightarrow> if toUpper c1 = toUpper c then [([], r)] else [] | [] \<Rightarrow> []))"

fun matchFormat :: "string \<Rightarrow> string \<Rightarrow> capture list \<Rightarrow> capture list list" where
  "matchFormat [] inp acc = (if inp = [] then [acc] else [])"
| "matchFormat (c # cs) inp acc =
     concat (map (\<lambda>alt. matchFormat cs (snd alt) (acc @ fst alt)) (codeAlts c inp))"

fun hourOf :: "capture list \<Rightarrow> nat option \<Rightarrow> nat option" where
  "hourOf [] h = h"
| "hourOf (Hour n # cs) h = hourOf cs (Some n)"
| "hourOf (c # cs) h = hourOf cs h"

fun minuteOf :: "capture list \<Rightarrow> nat option \<Rightarrow> nat option" where
  "minuteOf [] i = i"
| "minuteOf (Minute n # cs) i = minuteOf cs (Some n)"
| "minuteOf (c # cs) i = minuteOf cs i"

fun secondOf :: "capture list \<Rightarrow> nat option \<Rightarrow> nat option" where
  "secondOf [] s = s"
| "secondOf (Second n # cs) s = secondOf cs (Some n)"
| "secondOf (c # cs) s = secondOf cs s"

text \<open>
  The meridiem is applied after the other codes: for AM,
  \<^verbatim>\<open>if (!h || h == 12) h = 0\<close>; for PM,
  \<^verbatim>\<open>if (!h || h < 12) h = (h || 0) + 12\<close>.
\<close>

fun applyMeridiem :: "capture list \<Rightarrow> nat option \<Rightarrow> nat option" where
  "applyMeridiem [] h = h"
| "applyMeridiem (Meridiem am # cs) h =
     applyMeridiem cs
       (case h of
          None \<Rightarrow> Some (if am then 0 else 12)
        | Some n \<Rightarrow>
            if am then (if n = 0 \<or> n = 12 then Some 0 else Some n)
            else (if n < 12 then Some (n + 12) else Some n))"
| "applyMeridiem (c # cs) h = applyMeridiem cs h"

definition fromDefault :: "nat option \<Rightarrow> nat \<Rightarrow> nat" where
  "fromDefault v d = (case v of Some n \<Rightarrow> n | None \<Rightarrow> d)"

definition ExtDate_parse :: "date \<Rightarrow> string \<Rightarrow> string \<Rightarrow> bool option \<Rightarrow> date option" where
  "ExtDate_parse today input fmt strict =
     (case matchFormat fmt input [] of
        [] \<Rightarrow> None
      | caps # others \<Rightarrow>
          Some \<lparr>getFullYear = getFullYear today, getMonth = getMonth today,
                getDate = getDate today,
                getHours = fromDefault (applyMeridiem caps (hourOf caps None)) 0,
                getMinutes = fromDefault (minuteOf caps None) 0,
                getSeconds = fromDefault (secondOf caps None) 0,
                getMilliseconds = 0\<rparr>)"

definition digitChar :: "nat \<Rightarrow> char" where
  "digitChar n = char_of (48 + n)"

function showNat :: "nat \<Rightarrow> string" where
  "showNat n = (if n < 10 then [digitChar n] else showNat (n div 10) @ [digitChar (n mod 10)])"
  by pat_completeness auto
termination
  by (relation "measure (\<lambda>n. n)") auto

declare showNat.simps [simp del]

definition leftPad2 :: "nat \<Rightarrow> string" where
  "leftPad2 n = (if n < 10 then CHR ''0'' # showNat n else showNat n)"

definition hour12 :: "date \<Rightarrow> nat" where
  "hour12 d = (if getHours d mod 12 = 0 then 12 else getHours d mod 12)"

definition formatCode :: "date \<Rightarrow> char \<Rightarrow> string" where
  "formatCode d c =
     (if c = CHR ''g'' then showNat (hour12 d)
      else if c = CHR ''h'' then leftPad2 (hour12 d)
      else if c = CHR ''i'' then leftPad2 (getMinutes d)
      else if c = CHR ''s'' then leftPad2 (getSeconds d)
      else if c = CHR ''A'' then (if getHours d < 12 then ''AM'' else ''PM'')
      else [c])"

definition ExtDate_format :: "jsval \<Rightarrow> string \<Rightarrow> string" where
  "ExtDate_format v fmt =
     (case v of DateV d \<Rightarrow> concat (map (formatCode d) fmt) | _ \<Rightarrow> [])"

definition ExtDate :: "date \<Rightarrow> extdate" where
  "ExtDate today = \<lparr>Date_parse = ExtDate_parse today, Date_format = ExtDate_format\<rparr>"

text \<open>The component as the source configures it (lines 31-113), before any value is
  set, and a clock reading.\<close>

definition defaults :: MeridiemTime where
  "defaults =
     \<lparr>format = ''h:iA'', captureSeconds = False, captureSecondsFormat = ''h:i:sA'',
      altFormats = ''h:iA|hiA|g:iA|giA|hA|gA'', altFormatsArray = None, useStrict = None,
      minText = ''The time in this field must be equal to or after {0}'',
      maxText = ''The time in this field must be equal to or before {0}'',
      invalidText = ''{0} is not a valid time - it must be in the format {1}'',
      invalidTextFormat = None, maxLength = None, minValue = Undefined,
      maxValue = Undefined, meridiemValue = None, rawValue = [], fieldValue = Undefined,
      events = []\<rparr>"

definition sampleToday :: date where
  "sampleToday =
     \<lparr>getFullYear = 2021, getMonth = 2, getDate = 31, getHours = 14, getMinutes = 5,
      getSeconds = 9, getMilliseconds = 0\<rparr>"

section \<open>The parser as the specification words it\<close>

text \<open>
  The formats \<^verbatim>\<open>parseDate\<close> falls back to (lines 346-347): none when
  \<^verbatim>\<open>altFormats\<close> is empty, else \<^verbatim>\<open>altFormatsArray\<close> when it is set, else
  the pieces of \<^verbatim>\<open>altFormats\<close> between the bars.
\<close>

definition fallbackFormats :: "MeridiemTime \<Rightarrow> string list" where
  "fallbackFormats me =
     (if altFormats me = [] then []
      else (case altFormatsArray me of Some a \<Rightarrow> a | None \<Rightarrow> split CHR ''|'' (altFormats me)))"

text \<open>The first format of a list, in order, under which the library parses the input.\<close>

fun firstParse :: "extdate \<Rightarrow> string \<Rightarrow> bool option \<Rightarrow> string list \<Rightarrow> date option" where
  "firstParse lib input strict [] = None"
| "firstParse lib input strict (f # fs) =
     (case Date_parse lib input f strict of
        Some d \<Rightarrow> Some d
      | None \<Rightarrow> firstParse lib input strict fs)"

definition sampleField :: MeridiemTime where
  "sampleField = defaults\<lparr>meridiemValue := Some ''PM'', rawValue := ''3:45''\<rparr>"

section \<open>The validator as the specification words it\<close>

text \<open>
  A bound is configured when it is a Date; the parsed time is before the minimum or
  after the maximum by the comparison of \<^verbatim>\<open>getTime()\<close>. The messages are the
  templates filled with the formatted bound.
\<close>

definition beforeMinimum :: "MeridiemTime \<Rightarrow> date \<Rightarrow> bool" where
  "beforeMinimum me p = (case minValue me of DateV m \<Rightarrow> getTime p < getTime m | _ \<Rightarrow> False)"

definition afterMaximum :: "MeridiemTime \<Rightarrow> date \<Rightarrow> bool" where
  "afterMaximum me p = (case maxValue me of DateV m \<Rightarrow> getTime m < getTime p | _ \<Rightarrow> False)"

definition minMessage :: "extdate \<Rightarrow> MeridiemTime \<Rightarrow> string" where
  "minMessage lib me = String_format (minText me) [Date_format lib (minValue me) (format me)]"

definition maxMessage :: "extdate \<Rightarrow> MeridiemTime \<Rightarrow> string" where
  "maxMessage lib me = String_format (maxText me) [Date_format lib (maxValue me) (format me)]"

text \<open>
  A bound the component stores is a Date or falsy: \<^verbatim>\<open>initComponent\<close>,
  \<^verbatim>\<open>setMinValue\<close> and \<^verbatim>\<open>setMaxValue\<close> parse every string (lemmas
  \<open>initComponent_boundOk\<close>, \<open>setMinValue_boundOk\<close>, \<open>setMaxValue_boundOk\<close>).
\<close>

definition boundOk :: "jsval \<Rightarrow> bool" where
  "boundOk v = (isDate v \<or> \<not> truthy v)"

text \<open>Sample fields: one with an unparsable text, one with bounds that exclude every
  time.\<close>

definition sampleInvalid :: MeridiemTime where
  "sampleInvalid =
     (initComponent (ExtDate sampleToday) sampleField sampleToday)\<lparr>rawValue := ''3:75''\<rparr>"

definition sampleBounded :: MeridiemTime where
  "sampleBounded =
     sampleField\<lparr>minValue := DateV (sampleToday\<lparr>getHours := 18, getMinutes := 0, getSeconds := 0\<rparr>),
                 maxValue := DateV (sampleToday\<lparr>getHours := 9, getMinutes := 0, getSeconds := 0\<rparr>)\<rparr>"

section \<open>The meridiem synchronizer as the specification words it\<close>

text \<open>
  The value a selection recomputes: the hour, minute and second of the old value with
  the hour moved into the selected half of the day, on the current day. The text the
  field displays for a time under one of the two built-in formats is the 12-hour time
  without the meridiem.
\<close>

definition recompute :: "date \<Rightarrow> date \<Rightarrow> string \<Rightarrow> date" where
  "recompute today d M =
     \<lparr>getFullYear = getFullYear today, getMonth = getMonth today, getDate = getDate today,
      getHours = getHours d mod 12 + (if M = ''PM'' then 12 else 0),
      getMinutes = getMinutes d, getSeconds = getSeconds d, getMilliseconds = 0\<rparr>"

definition display :: "MeridiemTime \<Rightarrow> date \<Rightarrow> string" where
  "display me d =
     (if format me = ''h:i:sA''
      then leftPad2 (hour12 d) @ '':'' @ leftPad2 (getMinutes d) @ '':'' @ leftPad2 (getSeconds d)
      else leftPad2 (hour12 d) @ '':'' @ leftPad2 (getMinutes d))"

section \<open>The date-clearing rule as the specification words it\<close>

text \<open>
  Two dates lie on the same day; a Date cleared to the current day keeps its time of day
  (its seconds only when the field captures seconds). \<open>keepsDay\<close> says that the day of
  the month of today exists in the month of the date and in today's month of the
  date's year, so that none of the three setters of \<^verbatim>\<open>clearDate\<close> carries over
  into the next month.
\<close>

definition sameDay :: "date \<Rightarrow> date \<Rightarrow> bool" where
  "sameDay r today =
     (getFullYear r = getFullYear today \<and> getMonth r = getMonth today
      \<and> getDate r = getDate today)"

definition keepsDay :: "date \<Rightarrow> date \<Rightarrow> bool" where
  "keepsDay today d =
     (getDate today \<le> daysInMonth (getFullYear d) (getMonth d)
      \<and> getDate today \<le> daysInMonth (getFullYear d) (getMonth today))"

definition cleared :: "MeridiemTime \<Rightarrow> date \<Rightarrow> date \<Rightarrow> date" where
  "cleared me today d =
     d\<lparr>getFullYear := getFullYear today, getMonth := getMonth today,
        getDate := getDate today,
        getSeconds := (if captureSeconds me then getSeconds d else 0)\<rparr>"

definition sampleOtherDay :: date where
  "sampleOtherDay =
     \<lparr>getFullYear = 2020, getMonth = 1, getDate = 15, getHours = 9, getMinutes = 30,
      getSeconds = 12, getMilliseconds = 0\<rparr>"

text \<open>The captures of the reference parser are in range.\<close>

fun capOk :: "capture \<Rightarrow> bool" where
  "capOk (Hour n) = (n \<le> 12)"
| "capOk (Minute n) = (n < 60)"
| "capOk (Second n) = (n < 60)"
| "capOk (Meridiem am) = True"

fun optLe :: "nat \<Rightarrow> nat option \<Rightarrow> bool" where
  "optLe k None = True"
| "optLe k (Some n) = (n \<le> k)"

section \<open>The round trip as the specification words it\<close>

text \<open>
  The canonical text of a time under a built-in format is \<open>display\<close> followed by
  its meridiem. \<open>reparsed\<close> is the Date the reference parser returns for that text:
  the current day with the time of day the text names.
\<close>

definition ampm :: "date \<Rightarrow> string" where
  "ampm d = (if getHours d < 12 then ''AM'' else ''PM'')"

definition reparsed :: "MeridiemTime \<Rightarrow> date \<Rightarrow> date \<Rightarrow> date" where
  "reparsed me today d =
     \<lparr>getFullYear = getFullYear today, getMonth = getMonth today, getDate = getDate today,
      getHours = getHours d, getMinutes = getMinutes d,
      getSeconds = (if format me = ''h:i:sA'' then getSeconds d else 0),
      getMilliseconds = 0\<rparr>"

section \<open>More sample inputs\<close>

text \<open>
  A clock reading of the library one day behind the component's, a field whose fallback
  formats read seconds, a field whose format shows only the hour, and the sample field
  after \<^verbatim>\<open>initComponent\<close>.
\<close>

definition sampleEarlier :: date where
  "sampleEarlier =
     \<lparr>getFullYear = 2021, getMonth = 2, getDate = 30, getHours = 23, getMinutes = 59,
      getSeconds = 59, getMilliseconds = 0\<rparr>"

definition sampleSeconds :: MeridiemTime where
  "sampleSeconds = sampleField\<lparr>altFormats := ''h:iA|g:i:sA''\<rparr>"

definition sampleHourOnly :: MeridiemTime where
  "sampleHourOnly = sampleField\<lparr>format := ''hA''\<rparr>"

definition sampleInit :: MeridiemTime where
  "sampleInit = initComponent (ExtDate sampleToday) sampleField sampleToday"

text \<open>
  A format of the codes \<^verbatim>\<open>g\<close>, \<^verbatim>\<open>h\<close>, \<^verbatim>\<open>i\<close>, \<^verbatim>\<open>s\<close> and of
  separators (characters that are no letters and no backslash): the part of a format
  before its final \<^verbatim>\<open>A\<close> that the reference instance covers.
\<close>

definition isLetter :: "char \<Rightarrow> bool" where
  "isLetter c =
     ((65 \<le> (of_char c :: nat) \<and> (of_char c :: nat) \<le> 90)
      \<or> (97 \<le> (of_char c :: nat) \<and> (of_char c :: nat) \<le> 122))"

definition timeFormat :: "string \<Rightarrow> bool" where
  "timeFormat f =
     list_all (\<lambda>c. c = CHR ''g'' \<or> c = CHR ''h'' \<or> c = CHR ''i'' \<or> c = CHR ''s''
                 \<or> (\<not> isLetter c \<and> (of_char c :: nat) \<noteq> 92)) f"

section \<open>Parsing\<close>

lemma clearDate_isDate: "\<exists>r. clearDate me today (DateV d) = DateV r"
  by (simp add: clearDate_def Let_def)

lemma truthy_clearDate: "truthy (clearDate me today (DateV d))"
  using clearDate_isDate [of me today d] by auto

lemma isDate_clearDate: "isDate (clearDate me today (DateV d))"
  by (simp add: clearDate_def Let_def)

lemma firstParse_None_iff:
  "(firstParse lib input strict fs = None) = (\<forall>f\<in>set fs. Date_parse lib input f strict = None)"
  by (induction fs) (auto split: option.splits)

lemma altLoop_first:
  "\<not> truthy p \<Longrightarrow>
   altLoop lib me today input fmts i p =
     (case firstParse lib input (useStrict me) (drop i fmts) of
        Some d \<Rightarrow> clearDate me today (DateV d)
      | None \<Rightarrow> (if i < length fmts then Null else p))"
proof (induction lib me today input fmts i p rule: altLoop.induct)
  case (1 lib me today input fmts i parsedValue)
  show ?case
  proof (cases "i < length fmts")
    case False
    with 1 show ?thesis by (simp add: altLoop.simps)
  next
    case True
    then have d: "drop i fmts = fmts ! i # drop (Suc i) fmts"
      by (simp add: Cons_nth_drop_Suc)
    show ?thesis
    proof (cases "Date_parse lib input (fmts ! i) (useStrict me)")
      case None
      then have n: "safeParse lib me today input (fmts ! i) = Null"
        by (simp add: safeParse_def)
      have "altLoop lib me today input fmts i parsedValue
            = altLoop lib me today input fmts (Suc i) Null"
        using True "1.prems" n by (subst altLoop.simps) simp
      also have "\<dots> = (case firstParse lib input (useStrict me) (drop (Suc i) fmts) of
                          Some d \<Rightarrow> clearDate me today (DateV d)
                        | None \<Rightarrow> (if Suc i < length fmts then Null else Null))"
        using "1.IH" [OF conjI [OF True "1.prems"]] n by simp
      finally show ?thesis using True None d by (simp split: option.splits)
    next
      case (Some dd)
      then have n: "safeParse lib me today input (fmts ! i) = clearDate me today (DateV dd)"
        by (simp add: safeParse_def)
      have "altLoop lib me today input fmts i parsedValue
            = altLoop lib me today input fmts (Suc i) (clearDate me today (DateV dd))"
        using True "1.prems" n by (subst altLoop.simps) simp
      also have "\<dots> = clearDate me today (DateV dd)"
        by (subst altLoop.simps) (simp add: truthy_clearDate)
      finally show ?thesis using True Some d by simp
    qed
  qed
qed

lemma parseDate_Str:
  assumes "s \<noteq> []"
  shows "parseDate lib me today (Str s) =
     (case firstParse lib (s @ toStr (meridiemValue me)) (useStrict me)
             (format me # fallbackFormats me) of
        Some d \<Rightarrow> clearDate me today (DateV d)
      | None \<Rightarrow> Null)"
proof (cases "Date_parse lib (s @ toStr (meridiemValue me)) (format me) (useStrict me)")
  case (Some d)
  then show ?thesis
    using assms by (simp add: parseDate_def Let_def safeParse_def truthy_clearDate)
next
  case None
  then have n: "safeParse lib me today (s @ toStr (meridiemValue me)) (format me) = Null"
    by (simp add: safeParse_def)
  show ?thesis
  proof (cases "altFormats me = []")
    case True
    with None n assms show ?thesis
      by (simp add: parseDate_def Let_def fallbackFormats_def)
  next
    case False
    with None n assms show ?thesis
      by (simp add: parseDate_def Let_def fallbackFormats_def altLoop_first
               split: option.splits)
  qed
qed

lemma MakeDay_valid: "m < 12 \<Longrightarrow> 1 \<le> d \<Longrightarrow> d \<le> daysInMonth y m \<Longrightarrow> MakeDay y m d = (y, m, d)"
  by (subst MakeDay.simps) simp

lemma clearDate_cleared:
  assumes "validDate today" "validDate d" "keepsDay today d"
  shows "clearDate me today (DateV d) = DateV (cleared me today d)"
proof -
  from assms have t: "getMonth today < 12" "1 \<le> getDate today"
    "getDate today \<le> daysInMonth (getFullYear today) (getMonth today)"
    by (simp_all add: validDate_def)
  from assms have d: "getMonth d < 12" "getHours d < 24" "getMinutes d < 60"
    by (simp_all add: validDate_def)
  from assms have k: "getDate today \<le> daysInMonth (getFullYear d) (getMonth d)"
    "getDate today \<le> daysInMonth (getFullYear d) (getMonth today)"
    by (simp_all add: keepsDay_def)
  have 1: "setDate (getDate today) d = d\<lparr>getDate := getDate today\<rparr>"
    by (simp add: setDate_def withDay_def MakeDay_valid [OF d(1) t(2) k(1)])
  have 2: "setMonth (getMonth today) (d\<lparr>getDate := getDate today\<rparr>)
           = d\<lparr>getMonth := getMonth today, getDate := getDate today\<rparr>"
    by (simp add: setMonth_def withDay_def MakeDay_valid [OF t(1) t(2) k(2)])
  have 3: "setFullYear (getFullYear today) (d\<lparr>getMonth := getMonth today, getDate := getDate today\<rparr>)
           = d\<lparr>getFullYear := getFullYear today, getMonth := getMonth today,
                getDate := getDate today\<rparr>"
    by (simp add: setFullYear_def withDay_def MakeDay_valid [OF t(1) t(2) t(3)])
  have 4: "setSeconds 0 (d\<lparr>getFullYear := getFullYear today, getMonth := getMonth today,
                getDate := getDate today\<rparr>)
           = d\<lparr>getFullYear := getFullYear today, getMonth := getMonth today,
                getDate := getDate today, getSeconds := 0\<rparr>"
    using d by (simp add: setSeconds_def withDay_def Let_def MakeDay_valid [OF t(1) t(2) t(3)])
  show ?thesis
    by (simp add: clearDate_def Let_def 1 2 3 4 cleared_def)
qed

text \<open>
  C1: for a non-empty raw string, parseDate appends the meridiem value and returns the
  first successful parse among the configured format and then the fallback formats in
  order, with its date cleared, or null when no format parses the text. Cleared means:
  the day, the month and the year of today are set in this order and the seconds are set
  to 0 unless the field captures seconds; where no setter carries over, the result is
  the parsed Date on the day of today.
\<close>

theorem parseDate_first_success:
  assumes "s \<noteq> []"
  shows "parseDate lib me today (Str s) =
     (case firstParse lib (s @ toStr (meridiemValue me)) (useStrict me)
             (format me # fallbackFormats me) of
        Some d \<Rightarrow>
          DateV (if \<not> captureSeconds me
                 then setSeconds 0
                        (setFullYear (getFullYear today)
                           (setMonth (getMonth today) (setDate (getDate today) d)))
                 else setFullYear (getFullYear today)
                        (setMonth (getMonth today) (setDate (getDate today) d)))
      | None \<Rightarrow> Null)
   \<and> (\<forall>d. firstParse lib (s @ toStr (meridiemValue me)) (useStrict me)
             (format me # fallbackFormats me) = Some d \<longrightarrow>
           validDate today \<longrightarrow> validDate d \<longrightarrow> keepsDay today d \<longrightarrow>
           parseDate lib me today (Str s) =
             DateV (d\<lparr>getFullYear := getFullYear today, getMonth := getMonth today,
                      getDate := getDate today,
                      getSeconds := (if captureSeconds me then getSeconds d else 0)\<rparr>))"
proof -
  have a: "parseDate lib me today (Str s) =
     (case firstParse lib (s @ toStr (meridiemValue me)) (useStrict me)
             (format me # fallbackFormats me) of
        Some d \<Rightarrow>
          DateV (if \<not> captureSeconds me
                 then setSeconds 0
                        (setFullYear (getFullYear today)
                           (setMonth (getMonth today) (setDate (getDate today) d)))
                 else setFullYear (getFullYear today)
                        (setMonth (getMonth today) (setDate (getDate today) d)))
      | None \<Rightarrow> Null)"
    unfolding parseDate_Str [OF assms]
    by (simp add: clearDate_def Let_def split: option.splits)
  have b: "parseDate lib me today (Str s) =
             DateV (d\<lparr>getFullYear := getFullYear today, getMonth := getMonth today,
                      getDate := getDate today,
                      getSeconds := (if captureSeconds me then getSeconds d else 0)\<rparr>)"
    if "firstParse lib (s @ toStr (meridiemValue me)) (useStrict me)
             (format me # fallbackFormats me) = Some d"
      "validDate today" "validDate d" "keepsDay today d" for d
    using that clearDate_cleared [OF that(2,3,4), of me]
    by (simp add: parseDate_Str [OF assms] cleared_def)
  from a b show ?thesis by blast
qed

theorem parseDate_first_success_witness:
  "''3:45:30'' \<noteq> []
   \<and> firstParse (ExtDate sampleEarlier) (''3:45:30'' @ toStr (meridiemValue sampleSeconds))
         (useStrict sampleSeconds) (format sampleSeconds # fallbackFormats sampleSeconds)
       = Some \<lparr>getFullYear = 2021, getMonth = 2, getDate = 30, getHours = 15,
           getMinutes = 45, getSeconds = 30, getMilliseconds = 0\<rparr>
   \<and> validDate sampleToday
   \<and> validDate \<lparr>getFullYear = 2021, getMonth = 2, getDate = 30, getHours = 15,
           getMinutes = 45, getSeconds = 30, getMilliseconds = 0\<rparr>
   \<and> keepsDay sampleToday \<lparr>getFullYear = 2021, getMonth = 2, getDate = 30, getHours = 15,
           getMinutes = 45, getSeconds = 30, getMilliseconds = 0\<rparr>
   \<and> parseDate (ExtDate sampleEarlier) sampleSeconds sampleToday (Str ''3:45:30'')
       = DateV \<lparr>getFullYear = 2021, getMonth = 2, getDate = 31, getHours = 15,
           getMinutes = 45, getSeconds = 0, getMilliseconds = 0\<rparr>"
proof -
  let ?d = "\<lparr>getFullYear = 2021, getMonth = 2, getDate = 30, getHours = 15,
           getMinutes = 45, getSeconds = 30, getMilliseconds = 0\<rparr>"
  have ne: "''3:45:30'' \<noteq> []" by simp
  have fp: "firstParse (ExtDate sampleEarlier) (''3:45:30'' @ toStr (meridiemValue sampleSeconds))
         (useStrict sampleSeconds) (format sampleSeconds # fallbackFormats sampleSeconds)
       = Some ?d"
    by code_simp
  have v1: "validDate sampleToday" by code_simp
  have v2: "validDate ?d" by code_simp
  have k: "keepsDay sampleToday ?d" by code_simp
  have e: "?d\<lparr>getFullYear := getFullYear sampleToday, getMonth := getMonth sampleToday,
              getDate := getDate sampleToday,
              getSeconds := (if captureSeconds sampleSeconds then getSeconds ?d else 0)\<rparr>
           = \<lparr>getFullYear = 2021, getMonth = 2, getDate = 31, getHours = 15,
               getMinutes = 45, getSeconds = 0, getMilliseconds = 0\<rparr>"
    by code_simp
  from parseDate_first_success [OF ne, of "ExtDate sampleEarlier" sampleSeconds sampleToday]
    fp v1 v2 k
  have "parseDate (ExtDate sampleEarlier) sampleSeconds sampleToday (Str ''3:45:30'')
        = DateV (?d\<lparr>getFullYear := getFullYear sampleToday, getMonth := getMonth sampleToday,
              getDate := getDate sampleToday,
              getSeconds := (if captureSeconds sampleSeconds then getSeconds ?d else 0)\<rparr>)"
    by blast
  with e have "parseDate (ExtDate sampleEarlier) sampleSeconds sampleToday (Str ''3:45:30'')
       = DateV \<lparr>getFullYear = 2021, getMonth = 2, getDate = 31, getHours = 15,
           getMinutes = 45, getSeconds = 0, getMilliseconds = 0\<rparr>"
    by (simp only:)
  with ne fp v1 v2 k show ?thesis by (simp only: simp_thms)
qed

lemma parseDate_falsy: "\<not> truthy v \<Longrightarrow> parseDate lib me today v = v"
  by (simp add: parseDate_def)

lemma parseDate_DateV: "parseDate lib me today (DateV d) = DateV d"
  by (simp add: parseDate_def)

lemma parseDate_Str_cases:
  "s \<noteq> [] \<Longrightarrow> isDate (parseDate lib me today (Str s)) \<or> parseDate lib me today (Str s) = Null"
  by (auto simp add: parseDate_Str isDate_clearDate split: option.splits)

text \<open>
  C7, as amended: parseDate returns a falsy input as it is (the empty string for the
  empty string, undefined for undefined, null for null) and rawToValue turns each of them
  into null; on every input parseDate returns a value (a Date, null or the input
  itself), it has no path that raises.
\<close>

theorem parseDate_falsy_passthrough:
  "parseDate lib me today (Str []) = Str []
   \<and> parseDate lib me today Null = Null
   \<and> parseDate lib me today Undefined = Undefined
   \<and> rawToValue lib me today (Str []) = Null
   \<and> rawToValue lib me today Null = Null
   \<and> rawToValue lib me today Undefined = Null
   \<and> (isDate (parseDate lib me today v) \<or> parseDate lib me today v = Null
        \<or> parseDate lib me today v = v)"
proof -
  have "isDate (parseDate lib me today v) \<or> parseDate lib me today v = Null
        \<or> parseDate lib me today v = v"
  proof (cases v)
    case (Str s)
    then show ?thesis
      using parseDate_Str_cases [of s lib me today] parseDate_falsy [of v lib me today]
      by (cases "s = []") auto
  qed (simp_all add: parseDate_def)
  then show ?thesis by (simp add: parseDate_def rawToValue_def)
qed

theorem parseDate_falsy_passthrough_witness:
  "parseDate (ExtDate sampleToday) sampleField sampleToday (Str []) = Str []
   \<and> parseDate (ExtDate sampleToday) sampleField sampleToday Null = Null
   \<and> parseDate (ExtDate sampleToday) sampleField sampleToday Undefined = Undefined
   \<and> rawToValue (ExtDate sampleToday) sampleField sampleToday (Str []) = Null
   \<and> rawToValue (ExtDate sampleToday) sampleField sampleToday Null = Null
   \<and> rawToValue (ExtDate sampleToday) sampleField sampleToday Undefined = Null
   \<and> isDate (parseDate (ExtDate sampleToday) sampleField sampleToday (Str ''3:45''))"
proof -
  have "isDate (parseDate (ExtDate sampleToday) sampleField sampleToday (Str ''3:45''))"
    by code_simp
  with parseDate_falsy_passthrough
         [of "ExtDate sampleToday" sampleField sampleToday "Str ''3:45''"]
  show ?thesis by simp
qed

text \<open>
  C7 as stated fails: for the empty string parseDate returns the empty string, not
  null.
\<close>

theorem parseDate_empty_counterexample:
  "parseDate (ExtDate sampleToday) sampleField sampleToday (Str []) \<noteq> Null"
  by (simp add: parseDate_def)

text \<open>
  C10: a non-empty raw string that no format parses is itself the value rawToValue
  returns, and rawToValue returns null only for a falsy raw input.
\<close>

theorem rawToValue_unparsed:
  "(s \<noteq> [] \<longrightarrow>
      (\<forall>f\<in>set (format me # fallbackFormats me).
          Date_parse lib (s @ toStr (meridiemValue me)) f (useStrict me) = None) \<longrightarrow>
      rawToValue lib me today (Str s) = Str s)
   \<and> (rawToValue lib me today v = Null \<longrightarrow> \<not> truthy v)"
proof -
  have a: "rawToValue lib me today (Str s) = Str s"
    if "s \<noteq> []"
      and "\<forall>f\<in>set (format me # fallbackFormats me).
             Date_parse lib (s @ toStr (meridiemValue me)) f (useStrict me) = None"
  proof -
    from that(2) have "firstParse lib (s @ toStr (meridiemValue me)) (useStrict me)
                         (format me # fallbackFormats me) = None"
      by (simp only: firstParse_None_iff)
    with that(1) have "parseDate lib me today (Str s) = Null"
      by (simp add: parseDate_Str)
    with that(1) show ?thesis by (simp add: rawToValue_def)
  qed
  have b: "\<not> truthy v" if "rawToValue lib me today v = Null"
  proof (cases v)
    case (Str s)
    with that show ?thesis
      by (cases "s = []") (auto simp: rawToValue_def split: if_splits)
  next
    case (DateV d)
    with that show ?thesis by (simp add: rawToValue_def parseDate_DateV)
  qed simp_all
  from a b show ?thesis by blast
qed

theorem rawToValue_unparsed_witness:
  "''3:75'' \<noteq> []
   \<and> firstParse (ExtDate sampleToday) (''3:75'' @ toStr (meridiemValue sampleField))
         (useStrict sampleField) (format sampleField # fallbackFormats sampleField) = None
   \<and> rawToValue (ExtDate sampleToday) sampleField sampleToday (Str ''3:75'') = Str ''3:75''
   \<and> rawToValue (ExtDate sampleToday) sampleField sampleToday (Str []) = Null
   \<and> \<not> truthy (Str [])"
proof -
  have ne: "''3:75'' \<noteq> []" by simp
  have fp: "firstParse (ExtDate sampleToday) (''3:75'' @ toStr (meridiemValue sampleField))
          (useStrict sampleField) (format sampleField # fallbackFormats sampleField) = None"
    by code_simp
  then have al: "\<forall>f\<in>set (format sampleField # fallbackFormats sampleField).
          Date_parse (ExtDate sampleToday) (''3:75'' @ toStr (meridiemValue sampleField)) f
            (useStrict sampleField) = None"
    by (simp only: firstParse_None_iff)
  have e: "rawToValue (ExtDate sampleToday) sampleField sampleToday (Str []) = Null"
    by (simp add: rawToValue_def parseDate_def)
  from rawToValue_unparsed [of "''3:75''" sampleField "ExtDate sampleToday" sampleToday "Str []"]
    ne al e
  have "rawToValue (ExtDate sampleToday) sampleField sampleToday (Str ''3:75'') = Str ''3:75''"
    by blast
  with ne fp e show ?thesis by simp
qed

section \<open>Formatting\<close>

text \<open>C9: formatDate renders a Date with the configured format and returns every other
  value unchanged.\<close>

theorem formatDate_spec:
  "formatDate lib me (DateV d) = Str (Date_format lib (DateV d) (format me))
   \<and> formatDate lib me (Str s) = Str s
   \<and> formatDate lib me Null = Null
   \<and> formatDate lib me Undefined = Undefined"
  by (simp add: formatDate_def)

section \<open>Validation\<close>

lemma String_format_invalidText:
  "String_format ''{0} is not a valid time - it must be in the format {1}'' [a, b]
   = a @ '' is not a valid time - it must be in the format '' @ b"
  by (simp add: placeholder_def isDigit_def digitVal_def)

lemma String_format_minText:
  "String_format ''The time in this field must be equal to or after {0}'' [a]
   = ''The time in this field must be equal to or after '' @ a"
  by (simp add: placeholder_def isDigit_def digitVal_def)

lemma checkMin_ok:
  "boundOk (minValue me) \<Longrightarrow>
   checkMin lib me (getTime p) errors
     = Inr (errors @ (if beforeMinimum me p then [minMessage lib me] else []))"
  by (cases "minValue me") (auto simp: checkMin_def boundOk_def beforeMinimum_def minMessage_def)

lemma checkMax_ok:
  "boundOk (maxValue me) \<Longrightarrow>
   checkMax lib me (getTime p) errors
     = Inr (errors @ (if afterMaximum me p then [maxMessage lib me] else []))"
  by (cases "maxValue me") (auto simp: checkMax_def boundOk_def afterMaximum_def maxMessage_def)

lemma parseDate_boundOk: "boundOk (parseDate lib me today v)"
proof (cases v)
  case (Str s)
  then show ?thesis
    using parseDate_Str_cases [of s lib me today]
    by (cases "s = []") (auto simp: boundOk_def parseDate_def)
qed (simp_all add: parseDate_def boundOk_def)

lemma setMinValue_boundOk: "boundOk (minValue (setMinValue lib me today v))"
  by (cases v) (simp_all add: setMinValue_def parseDate_boundOk, simp_all add: boundOk_def)

lemma setMaxValue_boundOk: "boundOk (maxValue (setMaxValue lib me today v))"
  by (cases v) (simp_all add: setMaxValue_def parseDate_boundOk, simp_all add: boundOk_def)

lemma candidate_text: "\<exists>fv. formatDate lib me (candidate me value) = Str fv"
  by (cases "value") (simp_all add: candidate_def formatDate_def)

text \<open>
  C2: when the formatted text of the candidate re-parses to a time, getErrors appends the
  "before minimum" message exactly when a minimum is configured and the time is before
  it, then the "after maximum" message exactly when a maximum is configured and the time
  is after it; both checks run, so both messages can follow one another.
\<close>

theorem getErrors_bounds:
  assumes "formatDate lib me (candidate me value) = Str fv"
    and "parseDate lib me today (Str fv) = DateV p"
    and "boundOk (minValue me)" and "boundOk (maxValue me)"
  shows "getErrors lib me today errors value =
           Inr (errors @ (if beforeMinimum me p then [minMessage lib me] else [])
                       @ (if afterMaximum me p then [maxMessage lib me] else []))"
proof -
  have ne: "fv \<noteq> []"
    using assms(2) by (auto simp: parseDate_def)
  show ?thesis
    using assms ne
    by (simp add: getErrors_def candidate_def checkMin_ok checkMax_ok)
qed

theorem getErrors_bounds_witness:
  "formatDate (ExtDate sampleToday) sampleBounded (candidate sampleBounded Undefined) = Str ''3:45''
   \<and> parseDate (ExtDate sampleToday) sampleBounded sampleToday (Str ''3:45'')
       = DateV \<lparr>getFullYear = 2021, getMonth = 2, getDate = 31, getHours = 15,
           getMinutes = 45, getSeconds = 0, getMilliseconds = 0\<rparr>
   \<and> boundOk (minValue sampleBounded) \<and> boundOk (maxValue sampleBounded)
   \<and> getErrors (ExtDate sampleToday) sampleBounded sampleToday [] Undefined
       = Inr [''The time in this field must be equal to or after 06:00PM'',
              ''The time in this field must be equal to or before 09:00AM'']"
proof -
  have f: "formatDate (ExtDate sampleToday) sampleBounded (candidate sampleBounded Undefined)
           = Str ''3:45''"
    by code_simp
  have p: "parseDate (ExtDate sampleToday) sampleBounded sampleToday (Str ''3:45'')
       = DateV \<lparr>getFullYear = 2021, getMonth = 2, getDate = 31, getHours = 15,
           getMinutes = 45, getSeconds = 0, getMilliseconds = 0\<rparr>"
    by code_simp
  have b1: "boundOk (minValue sampleBounded)" by code_simp
  have b2: "boundOk (maxValue sampleBounded)" by code_simp
  have r: "[] @ (if beforeMinimum sampleBounded \<lparr>getFullYear = 2021, getMonth = 2, getDate = 31,
                      getHours = 15, getMinutes = 45, getSeconds = 0, getMilliseconds = 0\<rparr>
                 then [minMessage (ExtDate sampleToday) sampleBounded] else [])
              @ (if afterMaximum sampleBounded \<lparr>getFullYear = 2021, getMonth = 2, getDate = 31,
                      getHours = 15, getMinutes = 45, getSeconds = 0, getMilliseconds = 0\<rparr>
                 then [maxMessage (ExtDate sampleToday) sampleBounded] else [])
           = [''The time in this field must be equal to or after 06:00PM'',
              ''The time in this field must be equal to or before 09:00AM'']"
    by code_simp
  from getErrors_bounds [OF f p b1 b2, of "[]"] r
  have "getErrors (ExtDate sampleToday) sampleBounded sampleToday [] Undefined
       = Inr [''The time in this field must be equal to or after 06:00PM'',
              ''The time in this field must be equal to or before 09:00AM'']"
    by (simp only:)
  with f p b1 b2 show ?thesis by (simp only: simp_thms)
qed

text \<open>
  C3, as amended: getErrors formats the candidate; when the formatted text is empty it
  returns the inherited errors at once; when the text is not empty and its re-parse
  fails, it appends exactly one message, the invalidText template filled with the text,
  the meridiem and the expected pattern invalidTextFormat, and checks no bound.
\<close>

theorem getErrors_invalid:
  assumes "formatDate lib me (candidate me value) = Str fv"
  shows "(fv = [] \<longrightarrow> getErrors lib me today errors value = Inr errors)
   \<and> (fv \<noteq> [] \<longrightarrow> \<not> truthy (parseDate lib me today (Str fv)) \<longrightarrow>
        getErrors lib me today errors value =
          Inr (errors @ [String_format (invalidText me)
                 [fv @ '' '' @ toStr (meridiemValue me), toStr (invalidTextFormat me)]])
        \<and> (invalidText me = ''{0} is not a valid time - it must be in the format {1}'' \<longrightarrow>
             getErrors lib me today errors value =
               Inr (errors @ [fv @ '' '' @ toStr (meridiemValue me)
                      @ '' is not a valid time - it must be in the format ''
                      @ toStr (invalidTextFormat me)])))"
proof -
  have a: "getErrors lib me today errors value = Inr errors" if "fv = []"
    using assms that by (simp add: getErrors_def candidate_def)
  have b: "getErrors lib me today errors value =
          Inr (errors @ [String_format (invalidText me)
                 [fv @ '' '' @ toStr (meridiemValue me), toStr (invalidTextFormat me)]])"
    if "fv \<noteq> []" "\<not> truthy (parseDate lib me today (Str fv))"
    using assms that
    by (cases "parseDate lib me today (Str fv)")
       (simp_all add: getErrors_def candidate_def invalidMessage_def)
  have c: "getErrors lib me today errors value =
               Inr (errors @ [fv @ '' '' @ toStr (meridiemValue me)
                      @ '' is not a valid time - it must be in the format ''
                      @ toStr (invalidTextFormat me)])"
    if "fv \<noteq> []" "\<not> truthy (parseDate lib me today (Str fv))"
      "invalidText me = ''{0} is not a valid time - it must be in the format {1}''"
    using b [OF that(1,2)] that(3) by (simp only: String_format_invalidText append_assoc)
  show ?thesis using a b c by blast
qed

theorem getErrors_invalid_witness:
  "formatDate (ExtDate sampleToday) sampleInvalid (candidate sampleInvalid Undefined) = Str ''3:75''
   \<and> ''3:75'' \<noteq> []
   \<and> \<not> truthy (parseDate (ExtDate sampleToday) sampleInvalid sampleToday (Str ''3:75''))
   \<and> invalidText sampleInvalid = ''{0} is not a valid time - it must be in the format {1}''
   \<and> getErrors (ExtDate sampleToday) sampleInvalid sampleToday [] Undefined
       = Inr [''3:75 PM is not a valid time - it must be in the format HH:MM AM/PM'']"
proof -
  have f: "formatDate (ExtDate sampleToday) sampleInvalid (candidate sampleInvalid Undefined)
           = Str ''3:75''"
    by code_simp
  have ne: "''3:75'' \<noteq> []" by simp
  have p: "\<not> truthy (parseDate (ExtDate sampleToday) sampleInvalid sampleToday (Str ''3:75''))"
    by code_simp
  have t: "invalidText sampleInvalid = ''{0} is not a valid time - it must be in the format {1}''"
    by code_simp
  have m: "[] @ [''3:75'' @ '' '' @ toStr (meridiemValue sampleInvalid)
                  @ '' is not a valid time - it must be in the format ''
                  @ toStr (invalidTextFormat sampleInvalid)]
           = [''3:75 PM is not a valid time - it must be in the format HH:MM AM/PM'']"
    by code_simp
  from getErrors_invalid [OF f, of sampleToday "[]"] ne p t
  have "getErrors (ExtDate sampleToday) sampleInvalid sampleToday [] Undefined =
               Inr ([] @ [''3:75'' @ '' '' @ toStr (meridiemValue sampleInvalid)
                      @ '' is not a valid time - it must be in the format ''
                      @ toStr (invalidTextFormat sampleInvalid)])"
    by blast
  with m have "getErrors (ExtDate sampleToday) sampleInvalid sampleToday [] Undefined
       = Inr [''3:75 PM is not a valid time - it must be in the format HH:MM AM/PM'']"
    by (simp only:)
  with f ne p t show ?thesis by (simp only: simp_thms)
qed

text \<open>
  C3 as stated fails on an empty field: the re-parse of the empty text gives no time,
  and getErrors reports nothing.
\<close>

theorem getErrors_empty_counterexample:
  "formatDate (ExtDate sampleToday) defaults (candidate defaults Undefined) = Str []
   \<and> \<not> truthy (parseDate (ExtDate sampleToday) defaults sampleToday (Str []))
   \<and> getErrors (ExtDate sampleToday) defaults sampleToday [] Undefined = Inr []"
  by (simp add: getErrors_def candidate_def formatDate_def parseDate_def defaults_def)

section \<open>The meridiem\<close>

text \<open>
  C8: when setValue runs, the value brings no meridiem and none is set, the meridiem
  becomes PM if the hour of the clock is 12 or more and AM otherwise.
\<close>

theorem setValue_default_meridiem:
  assumes "meridiemValue me = None \<or> meridiemValue me = Some []"
    and "\<not> truthy (valueToRaw lib me today value)"
  shows "meridiemValue (setValue lib me today value)
         = Some (if 12 \<le> getHours today then ''PM'' else ''AM'')"
proof (cases "valueToRaw lib me today value")
  case (Str r)
  with assms(2) have "r = []" by simp
  with Str assms(1) show ?thesis
    by (auto simp: setValue_def Let_def lastTwo_def)
next
  case (DateV d)
  with assms(2) show ?thesis by simp
qed (use assms(1) in \<open>auto simp: setValue_def Let_def\<close>)

theorem setValue_default_meridiem_witness:
  "meridiemValue defaults = None
   \<and> \<not> truthy (valueToRaw (ExtDate sampleToday) defaults sampleToday (Str ''3:45''))
   \<and> getHours sampleToday = 14
   \<and> meridiemValue (setValue (ExtDate sampleToday) defaults sampleToday (Str ''3:45''))
       = Some ''PM''"
proof -
  have a: "meridiemValue defaults = None" by code_simp
  have b: "\<not> truthy (valueToRaw (ExtDate sampleToday) defaults sampleToday (Str ''3:45''))"
    by code_simp
  have c: "getHours sampleToday = 14" by (simp add: sampleToday_def)
  from setValue_default_meridiem [OF disjI1 [OF a] b] c
  have "meridiemValue (setValue (ExtDate sampleToday) defaults sampleToday (Str ''3:45''))
       = Some ''PM''"
    by simp
  with a b c show ?thesis by (simp only: simp_thms)
qed

section \<open>Facts about the reference instance\<close>

lemma of_char_digitChar: "n < 10 \<Longrightarrow> (of_char (digitChar n) :: nat) = 48 + n"
  by (simp add: digitChar_def)

lemma isDigit_digitChar: "n < 10 \<Longrightarrow> isDigit (digitChar n)"
  by (simp add: isDigit_def of_char_digitChar)

lemma digitVal_digitChar: "n < 10 \<Longrightarrow> digitVal (digitChar n) = n"
  by (simp add: digitVal_def of_char_digitChar)

lemma digitChar_eq_iff: "n < 10 \<Longrightarrow> k < 10 \<Longrightarrow> (digitChar n = digitChar k) = (n = k)"
proof
  assume "n < 10" "k < 10" "digitChar n = digitChar k"
  then have "(of_char (digitChar n) :: nat) = of_char (digitChar k)" by simp
  with \<open>n < 10\<close> \<open>k < 10\<close> show "n = k" by (simp add: of_char_digitChar)
qed simp

lemma digit_literals:
  "CHR ''0'' = digitChar 0" "CHR ''1'' = digitChar 1" "CHR ''2'' = digitChar 2"
  unfolding digitChar_def by code_simp+

lemma toUpper_digitChar: "n < 10 \<Longrightarrow> toUpper (digitChar n) = digitChar n"
  by (simp add: toUpper_def of_char_digitChar)

lemma showNat_digit: "n < 10 \<Longrightarrow> showNat n = [digitChar n]"
  by (simp add: showNat.simps)

lemma leftPad2_digits: "n < 100 \<Longrightarrow> leftPad2 n = [digitChar (n div 10), digitChar (n mod 10)]"
proof (cases "n < 10")
  case True
  then show ?thesis by (simp add: leftPad2_def showNat_digit digit_literals)
next
  case False
  assume "n < 100"
  with False have "n div 10 < 10" by simp
  with False show ?thesis
    by (simp add: leftPad2_def showNat.simps [of n] showNat_digit)
qed

lemma codeAlts_h: "1 \<le> n \<Longrightarrow> n \<le> 12 \<Longrightarrow> codeAlts CHR ''h'' (leftPad2 n @ r) = [([Hour n], r)]"
proof -
  assume n: "1 \<le> n" "n \<le> 12"
  then have a: "n div 10 < 10" "n mod 10 < 10" by simp_all
  from n have c: "(n div 10 = 1 \<and> n mod 10 \<le> 2) \<or> (n div 10 = 0 \<and> n mod 10 \<noteq> 0)"
    by presburger
  from n have "n < 100" by simp
  then show ?thesis
    using a c
    by (auto simp add: leftPad2_digits codeAlts_def digit_literals digitChar_eq_iff
          isDigit_digitChar digitVal_digitChar)
qed

lemma codeAlts_i: "n < 60 \<Longrightarrow> codeAlts CHR ''i'' (leftPad2 n @ r) = [([Minute n], r)]"
proof -
  assume n: "n < 60"
  then have a: "n div 10 < 10" "n mod 10 < 10" "n div 10 \<le> 5" by simp_all
  from n have "n < 100" by simp
  then show ?thesis
    using a
    by (simp add: leftPad2_digits codeAlts_def isDigit_digitChar digitVal_digitChar)
qed

lemma codeAlts_s: "n < 60 \<Longrightarrow> codeAlts CHR ''s'' (leftPad2 n @ r) = [([Second n], r)]"
proof -
  assume n: "n < 60"
  then have a: "n div 10 < 10" "n mod 10 < 10" "n div 10 \<le> 5" by simp_all
  from n have "n < 100" by simp
  then show ?thesis
    using a
    by (simp add: leftPad2_digits codeAlts_def isDigit_digitChar digitVal_digitChar)
qed

lemma codeAlts_A:
  "codeAlts CHR ''A'' (''AM'' @ r) = [([Meridiem True], r)]"
  "codeAlts CHR ''A'' (''PM'' @ r) = [([Meridiem False], r)]"
  by (simp_all add: codeAlts_def toUpper_def)

lemma codeAlts_colon: "codeAlts CHR '':'' (CHR '':'' # r) = [([], r)]"
  by (simp add: codeAlts_def toUpper_def)

lemma matchFormat_hisA:
  assumes "1 \<le> h" "h \<le> 12" "mi < 60" "s < 60"
  shows "matchFormat ''hisA'' (leftPad2 h @ leftPad2 mi @ leftPad2 s @ ''AM'') []
           = [[Hour h, Minute mi, Second s, Meridiem True]]"
    and "matchFormat ''hisA'' (leftPad2 h @ leftPad2 mi @ leftPad2 s @ ''PM'') []
           = [[Hour h, Minute mi, Second s, Meridiem False]]"
  using assms codeAlts_A [of "[]"]
  by (simp_all add: codeAlts_h codeAlts_i codeAlts_s)

lemma hour12_range: "1 \<le> hour12 d \<and> hour12 d \<le> 12"
proof -
  have "getHours d mod 12 < 12" by simp
  then show ?thesis by (simp add: hour12_def)
qed

lemma ExtDate_format_his:
  "ExtDate_format (DateV d) ''his''
     = leftPad2 (hour12 d) @ leftPad2 (getMinutes d) @ leftPad2 (getSeconds d)"
  by (simp add: ExtDate_format_def formatCode_def)

lemma ExtDate_parse_caps:
  "matchFormat fmt input [] = [caps] \<Longrightarrow>
   ExtDate_parse today input fmt strict =
     Some \<lparr>getFullYear = getFullYear today, getMonth = getMonth today,
           getDate = getDate today,
           getHours = fromDefault (applyMeridiem caps (hourOf caps None)) 0,
           getMinutes = fromDefault (minuteOf caps None) 0,
           getSeconds = fromDefault (secondOf caps None) 0,
           getMilliseconds = 0\<rparr>"
  by (simp add: ExtDate_parse_def)

lemma ExtDate_parse_hisA:
  assumes "getMinutes d < 60" "getSeconds d < 60" "M = ''AM'' \<or> M = ''PM''"
  shows "ExtDate_parse today (ExtDate_format (DateV d) ''his'' @ M) ''hisA'' strict
           = Some (recompute today d M)"
proof -
  have h: "1 \<le> hour12 d" "hour12 d \<le> 12" using hour12_range [of d] by simp_all
  have l: "getHours d mod 12 < 12" by simp
  have e: "hour12 d = 12 \<longleftrightarrow> getHours d mod 12 = 0"
    using l by (auto simp add: hour12_def)
  have e2: "hour12 d \<noteq> 12 \<Longrightarrow> hour12 d = getHours d mod 12"
    by (simp add: hour12_def split: if_splits)
  from assms(3) show ?thesis
  proof
    assume M: "M = ''AM''"
    have "ExtDate_parse today (ExtDate_format (DateV d) ''his'' @ M) ''hisA'' strict
          = Some \<lparr>getFullYear = getFullYear today, getMonth = getMonth today,
              getDate = getDate today,
              getHours = (if hour12 d = 12 then 0 else hour12 d),
              getMinutes = getMinutes d, getSeconds = getSeconds d, getMilliseconds = 0\<rparr>"
      unfolding M ExtDate_format_his append_assoc
      by (subst ExtDate_parse_caps [OF matchFormat_hisA(1) [OF h assms(1,2)]])
         (use h in \<open>simp add: fromDefault_def\<close>)
    then show ?thesis using e e2 M by (auto simp add: recompute_def)
  next
    assume M: "M = ''PM''"
    have "ExtDate_parse today (ExtDate_format (DateV d) ''his'' @ M) ''hisA'' strict
          = Some \<lparr>getFullYear = getFullYear today, getMonth = getMonth today,
              getDate = getDate today,
              getHours = (if hour12 d = 12 then 12 else hour12 d + 12),
              getMinutes = getMinutes d, getSeconds = getSeconds d, getMilliseconds = 0\<rparr>"
      unfolding M ExtDate_format_his append_assoc
      by (subst ExtDate_parse_caps [OF matchFormat_hisA(2) [OF h assms(1,2)]])
         (use h in \<open>auto simp add: fromDefault_def\<close>)
    then show ?thesis using e e2 M by (auto simp add: recompute_def)
  qed
qed

lemma stripMeridiem_suffix:
  "stripMeridiem (x @ ''AM'') = x" "stripMeridiem (x @ ''PM'') = x"
  by (simp_all add: stripMeridiem_def toUpper_def)

lemma lastTwo_suffix:
  "lastTwo (x @ ''AM'') = ''AM''" "lastTwo (x @ ''PM'') = ''PM''"
  by (simp_all add: lastTwo_def)

lemma ExtDate_format_hiA:
  "ExtDate_format (DateV d) ''h:iA''
     = (leftPad2 (hour12 d) @ '':'' @ leftPad2 (getMinutes d))
         @ (if getHours d < 12 then ''AM'' else ''PM'')"
  by (simp add: ExtDate_format_def formatCode_def)

lemma ExtDate_format_hisA:
  "ExtDate_format (DateV d) ''h:i:sA''
     = (leftPad2 (hour12 d) @ '':'' @ leftPad2 (getMinutes d) @ '':'' @ leftPad2 (getSeconds d))
         @ (if getHours d < 12 then ''AM'' else ''PM'')"
  by (simp add: ExtDate_format_def formatCode_def)

lemma valueToRaw_Date:
  assumes "format me = ''h:iA'' \<or> format me = ''h:i:sA''"
  shows "valueToRaw (ExtDate today) me today (DateV d)
         = Str (display me d @ (if getHours d < 12 then ''AM'' else ''PM''))"
proof -
  have "valueToRaw (ExtDate today) me today (DateV d)
        = Str (ExtDate_format (DateV d) (format me))"
    by (simp add: valueToRaw_def parseDate_def formatDate_def ExtDate_def)
  also have "ExtDate_format (DateV d) (format me)
        = display me d @ (if getHours d < 12 then ''AM'' else ''PM'')"
    using assms
  proof
    assume "format me = ''h:iA''"
    then show ?thesis by (simp only: ExtDate_format_hiA display_def) simp
  next
    assume "format me = ''h:i:sA''"
    then show ?thesis by (simp only: ExtDate_format_hisA display_def) simp
  qed
  finally show ?thesis .
qed

lemma setValue_Date:
  assumes "format me = ''h:iA'' \<or> format me = ''h:i:sA''"
  shows "setValue (ExtDate today) me today (DateV d)
         = me\<lparr>rawValue := display me d, fieldValue := Str (display me d),
               meridiemValue := Some (if getHours d < 12 then ''AM'' else ''PM'')\<rparr>"
proof (cases "getHours d < 12")
  case True
  then have "valueToRaw (ExtDate today) me today (DateV d) = Str (display me d @ ''AM'')"
    using valueToRaw_Date [OF assms, of today d] by simp
  then show ?thesis
    using True
    by (simp add: setValue_def stripMeridiem_suffix lastTwo_suffix setMeridiemValue_def Let_def)
next
  case False
  then have "valueToRaw (ExtDate today) me today (DateV d) = Str (display me d @ ''PM'')"
    using valueToRaw_Date [OF assms, of today d] by simp
  then show ?thesis
    using False
    by (simp add: setValue_def stripMeridiem_suffix lastTwo_suffix setMeridiemValue_def Let_def)
qed

lemma hour12_recompute: "hour12 (recompute today d M) = hour12 d"
  by (simp add: hour12_def recompute_def)

lemma display_recompute: "display (setMeridiemValue me M) (recompute today d M) = display me d"
proof -
  have "getMinutes (recompute today d M) = getMinutes d"
       "getSeconds (recompute today d M) = getSeconds d"
    by (simp_all add: recompute_def)
  moreover have "format (setMeridiemValue me M) = format me"
    by (simp add: setMeridiemValue_def)
  ultimately show ?thesis
    by (simp only: display_def hour12_recompute)
qed

lemma digitVal_le: "isDigit c \<Longrightarrow> digitVal c \<le> 9"
  unfolding isDigit_def digitVal_def by linarith

lemma digitVal_literals:
  "digitVal CHR ''0'' = 0" "digitVal CHR ''1'' = 1" "digitVal CHR ''2'' = 2"
  by (simp_all add: digitVal_def)

lemma codeAlts_ok: "alt \<in> set (codeAlts c inp) \<Longrightarrow> x \<in> set (fst alt) \<Longrightarrow> capOk x"
proof -
  assume a: "alt \<in> set (codeAlts c inp)" "x \<in> set (fst alt)"
  consider "inp = []" | c1 where "inp = [c1]" | c1 c2 r where "inp = c1 # c2 # r"
    by (cases inp; cases "tl inp"; force)
  then show ?thesis
  proof cases
    case 1
    with a show ?thesis by (auto simp: codeAlts_def split: if_splits)
  next
    case 2
    with a show ?thesis
      using digitVal_le [of c1] by (auto simp: codeAlts_def split: if_splits)
  next
    case 3
    with a show ?thesis
      using digitVal_le [of c1] digitVal_le [of c2]
      by (auto simp: codeAlts_def digitVal_literals split: if_splits)
  qed
qed

lemma matchFormat_ok:
  "caps \<in> set (matchFormat fmt inp acc) \<Longrightarrow> \<forall>x\<in>set acc. capOk x \<Longrightarrow> \<forall>x\<in>set caps. capOk x"
proof (induction fmt arbitrary: inp acc)
  case Nil
  then show ?case by (simp split: if_splits)
next
  case (Cons c cs)
  from Cons.prems(1) obtain alt where alt: "alt \<in> set (codeAlts c inp)"
    and m: "caps \<in> set (matchFormat cs (snd alt) (acc @ fst alt))"
    by auto
  have "\<forall>x\<in>set (acc @ fst alt). capOk x"
    using Cons.prems(2) codeAlts_ok [OF alt] by auto
  with Cons.IH [OF m] show ?case by simp
qed

lemma hourOf_le: "\<forall>x\<in>set caps. capOk x \<Longrightarrow> optLe 12 h \<Longrightarrow> optLe 12 (hourOf caps h)"
  by (induction caps h rule: hourOf.induct) simp_all

lemma minuteOf_le: "\<forall>x\<in>set caps. capOk x \<Longrightarrow> optLe 59 h \<Longrightarrow> optLe 59 (minuteOf caps h)"
  by (induction caps h rule: minuteOf.induct) simp_all

lemma secondOf_le: "\<forall>x\<in>set caps. capOk x \<Longrightarrow> optLe 59 h \<Longrightarrow> optLe 59 (secondOf caps h)"
  by (induction caps h rule: secondOf.induct) simp_all

lemma applyMeridiem_le: "optLe 23 h \<Longrightarrow> optLe 23 (applyMeridiem caps h)"
proof (induction caps arbitrary: h)
  case Nil
  then show ?case by simp
next
  case (Cons c cs)
  show ?case
  proof (cases c)
    case (Meridiem am)
    have "optLe 23 (case h of
                      None \<Rightarrow> Some (if am then 0 else 12)
                    | Some n \<Rightarrow>
                        if am then (if n = 0 \<or> n = 12 then Some 0 else Some n)
                        else (if n < 12 then Some (n + 12) else Some n))"
      using Cons.prems by (cases h; cases am) auto
    then show ?thesis using Cons.IH Meridiem by simp
  qed (use Cons in simp_all)
qed

lemma optLe_mono: "optLe k h \<Longrightarrow> k \<le> k' \<Longrightarrow> optLe k' h"
  by (cases h) simp_all

lemma fromDefault_le: "optLe k h \<Longrightarrow> fromDefault h 0 \<le> k"
  by (cases h) (simp_all add: fromDefault_def)

lemma ExtDate_parse_valid:
  assumes "validDate today" and "ExtDate_parse today input fmt strict = Some d"
  shows "validDate d \<and> sameDay d today \<and> getMilliseconds d = 0"
proof -
  from assms(2) obtain caps others where m: "matchFormat fmt input [] = caps # others"
    and d: "d = \<lparr>getFullYear = getFullYear today, getMonth = getMonth today,
                getDate = getDate today,
                getHours = fromDefault (applyMeridiem caps (hourOf caps None)) 0,
                getMinutes = fromDefault (minuteOf caps None) 0,
                getSeconds = fromDefault (secondOf caps None) 0,
                getMilliseconds = 0\<rparr>"
    by (auto simp: ExtDate_parse_def split: list.splits)
  from m have "caps \<in> set (matchFormat fmt input [])" by simp
  then have ok: "\<forall>x\<in>set caps. capOk x" using matchFormat_ok [of caps fmt input "[]"] by simp
  have h: "fromDefault (applyMeridiem caps (hourOf caps None)) 0 \<le> 23"
    by (rule fromDefault_le, rule applyMeridiem_le, rule optLe_mono [of 12])
       (simp_all add: hourOf_le [OF ok])
  have mi: "fromDefault (minuteOf caps None) 0 \<le> 59"
    by (rule fromDefault_le) (simp add: minuteOf_le [OF ok])
  have se: "fromDefault (secondOf caps None) 0 \<le> 59"
    by (rule fromDefault_le) (simp add: secondOf_le [OF ok])
  show ?thesis
    using assms(1) h mi se by (simp add: d validDate_def sameDay_def)
qed

lemma sameDay_keepsDay: "validDate today \<Longrightarrow> sameDay d today \<Longrightarrow> keepsDay today d"
  by (simp add: validDate_def sameDay_def keepsDay_def)

lemma firstParse_Some:
  "firstParse lib input strict fs = Some d \<Longrightarrow> \<exists>f\<in>set fs. Date_parse lib input f strict = Some d"
  by (induction fs) (auto split: option.splits)

lemma parseDate_ExtDate:
  assumes "validDate today"
    and "parseDate (ExtDate today) me today (Str s) = DateV r"
  shows "validDate r \<and> sameDay r today \<and> getMilliseconds r = 0
         \<and> (\<not> captureSeconds me \<longrightarrow> getSeconds r = 0)"
proof -
  have ne: "s \<noteq> []" using assms(2) by (auto simp: parseDate_def)
  from assms(2) obtain d where
    fp: "firstParse (ExtDate today) (s @ toStr (meridiemValue me)) (useStrict me)
           (format me # fallbackFormats me) = Some d"
    and r: "clearDate me today (DateV d) = DateV r"
    by (auto simp: parseDate_Str [OF ne] split: option.splits)
  from firstParse_Some [OF fp] obtain f where
    "ExtDate_parse today (s @ toStr (meridiemValue me)) f (useStrict me) = Some d"
    by (auto simp: ExtDate_def)
  from ExtDate_parse_valid [OF assms(1) this]
  have v: "validDate d" "sameDay d today" "getMilliseconds d = 0" by simp_all
  from clearDate_cleared [OF assms(1) v(1) sameDay_keepsDay [OF assms(1) v(2)], of me] r
  have "r = cleared me today d" by simp
  then show ?thesis
    using v assms(1) by (auto simp: cleared_def validDate_def sameDay_def)
qed

section \<open>The date portion\<close>

lemma initComponent_minValue:
  "minValue (initComponent lib me today)
     = (if isString (minValue me) then parseDate lib me today (minValue me) else minValue me)"
  by (simp add: initComponent_def Let_def split: option.splits)

lemma parseDate_minValue_update:
  "parseDate lib (me\<lparr>minValue := v\<rparr>) today x = parseDate lib me today x"
proof (cases x)
  case (Str s)
  show ?thesis
  proof (cases "s = []")
    case True
    with Str show ?thesis by (simp add: parseDate_def)
  next
    case False
    have "clearDate (me\<lparr>minValue := v\<rparr>) today y = clearDate me today y" for y
      by (simp add: clearDate_def split: jsval.splits)
    with False Str show ?thesis
      by (simp add: parseDate_Str fallbackFormats_def split: option.splits)
  qed
qed (simp_all add: parseDate_def)

lemma initComponent_maxValue:
  "maxValue (initComponent lib me today)
     = (if isString (maxValue me) then parseDate lib me today (maxValue me) else maxValue me)"
  by (simp add: initComponent_def Let_def parseDate_minValue_update split: option.splits)

lemma initComponent_boundOk:
  "boundOk (minValue (initComponent lib me today))"
  "boundOk (maxValue (initComponent lib me today))"
proof -
  have "boundOk (minValue me)" if "\<not> isString (minValue me)" for me :: MeridiemTime
    using that by (cases "minValue me") (simp_all add: boundOk_def)
  then show "boundOk (minValue (initComponent lib me today))"
    by (simp add: initComponent_minValue parseDate_boundOk)
  have "boundOk (maxValue me)" if "\<not> isString (maxValue me)" for me :: MeridiemTime
    using that by (cases "maxValue me") (simp_all add: boundOk_def)
  then show "boundOk (maxValue (initComponent lib me today))"
    by (simp add: initComponent_maxValue parseDate_boundOk)
qed





text \<open>
  Where \<open>keepsDay\<close> fails, the setters of clearDate carry over. On 31 March a Date
  of 15 February 2020 becomes 2 March, since \<^verbatim>\<open>setDate(31)\<close> runs before
  \<^verbatim>\<open>setMonth\<close>; on 29 February 2024 a Date of 15 January 2023 becomes 1 March,
  since \<^verbatim>\<open>setMonth\<close> runs before \<^verbatim>\<open>setFullYear\<close> and February 2023 has no
  29th day.
\<close>

lemma clearDate_carries_over:
  "clearDate sampleField sampleToday (DateV sampleOtherDay)
     = DateV \<lparr>getFullYear = 2021, getMonth = 2, getDate = 2, getHours = 9,
         getMinutes = 30, getSeconds = 0, getMilliseconds = 0\<rparr>"
  by code_simp

lemma clearDate_carries_over_leap:
  "clearDate sampleField
     \<lparr>getFullYear = 2024, getMonth = 1, getDate = 29, getHours = 10, getMinutes = 0,
      getSeconds = 0, getMilliseconds = 0\<rparr>
     (DateV \<lparr>getFullYear = 2023, getMonth = 0, getDate = 15, getHours = 9, getMinutes = 30,
        getSeconds = 0, getMilliseconds = 0\<rparr>)
     = DateV \<lparr>getFullYear = 2024, getMonth = 2, getDate = 1, getHours = 9,
         getMinutes = 30, getSeconds = 0, getMilliseconds = 0\<rparr>"
  by code_simp

text \<open>
  At construction no meridiem is set unless one is configured: a bound given as a string
  is then parsed with \<^verbatim>\<open>undefined\<close> appended, matches no format and becomes null.
\<close>

lemma initComponent_bound_without_meridiem:
  "minValue (initComponent (ExtDate sampleToday) (defaults\<lparr>minValue := Str ''9:00''\<rparr>)
      sampleToday) = Null"
  by code_simp

section \<open>Selecting a meridiem\<close>

lemma events_setValue: "events (setValue lib me today v) = events me"
  by (simp add: setValue_def Let_def setMeridiemValue_def split: jsval.splits)

lemma ExtDate_format_snoc_A:
  "ExtDate_format (DateV d) (f @ ''A'')
     = ExtDate_format (DateV d) f @ (if getHours d < 12 then ''AM'' else ''PM'')"
  by (simp add: ExtDate_format_def formatCode_def)

lemma setValue_Date_any:
  assumes "format me = f @ ''A''"
  shows "setValue (ExtDate today) me today (DateV d)
         = me\<lparr>rawValue := ExtDate_format (DateV d) f,
               fieldValue := Str (ExtDate_format (DateV d) f),
               meridiemValue := Some (if getHours d < 12 then ''AM'' else ''PM'')\<rparr>"
proof -
  have r: "valueToRaw (ExtDate today) me today (DateV d)
           = Str (ExtDate_format (DateV d) f @ (if getHours d < 12 then ''AM'' else ''PM''))"
    using assms
    by (simp add: valueToRaw_def parseDate_def formatDate_def ExtDate_def ExtDate_format_snoc_A
          del: append_assoc)
  show ?thesis
  proof (cases "getHours d < 12")
    case True
    with r have "valueToRaw (ExtDate today) me today (DateV d)
                 = Str (ExtDate_format (DateV d) f @ ''AM'')" by simp
    then show ?thesis
      using True
      by (simp add: setValue_def stripMeridiem_suffix lastTwo_suffix setMeridiemValue_def Let_def)
  next
    case False
    with r have "valueToRaw (ExtDate today) me today (DateV d)
                 = Str (ExtDate_format (DateV d) f @ ''PM'')" by simp
    then show ?thesis
      using False
      by (simp add: setValue_def stripMeridiem_suffix lastTwo_suffix setMeridiemValue_def Let_def)
  qed
qed

lemma recompute_fields:
  "getMinutes (recompute today d M) = getMinutes d"
  "getSeconds (recompute today d M) = getSeconds d"
  by (simp_all add: recompute_def)

lemma formatCode_recompute:
  "c \<noteq> CHR ''A'' \<Longrightarrow> formatCode (recompute today d M) c = formatCode d c"
  by (simp only: formatCode_def hour12_recompute recompute_fields if_False)

lemma isLetter_A: "isLetter CHR ''A''"
  by (simp add: isLetter_def)

lemma timeFormat_no_A: "timeFormat f \<Longrightarrow> CHR ''A'' \<notin> set f"
proof
  assume t: "timeFormat f" and a: "CHR ''A'' \<in> set f"
  have "\<forall>c\<in>set f. c = CHR ''g'' \<or> c = CHR ''h'' \<or> c = CHR ''i'' \<or> c = CHR ''s''
                 \<or> (\<not> isLetter c \<and> (of_char c :: nat) \<noteq> 92)"
    using t unfolding timeFormat_def list_all_iff .
  from bspec [OF this a] show False using isLetter_A by simp
qed

lemma ExtDate_format_recompute:
  "timeFormat f \<Longrightarrow>
   ExtDate_format (DateV (recompute today d M)) f = ExtDate_format (DateV d) f"
proof -
  assume t: "timeFormat f"
  have "map (formatCode (recompute today d M)) f = map (formatCode d) f"
  proof (rule map_cong [OF refl])
    fix c assume "c \<in> set f"
    with timeFormat_no_A [OF t] have "c \<noteq> CHR ''A''" by blast
    then show "formatCode (recompute today d M) c = formatCode d c"
      by (rule formatCode_recompute)
  qed
  then show ?thesis by (simp only: ExtDate_format_def jsval.case)
qed

text \<open>
  C5, as amended: when the field holds a valid time, selecting AM or PM in the picker
  recomputes the value from the hour, minute and second of the old value and the
  selected meridiem, changing only the half of the day, and fires the select event with
  the new value, whatever the format. The field then displays the old hour, minute and
  second as the configured format (without its final meridiem) renders them, and the
  meridiem becomes the selection: under the built-in formats the displayed hour, minute
  and second are kept; what the format does not show is dropped (under the reference
  instance of the framework's date functions).
\<close>

theorem onSelect_recomputes:
  assumes "validDate today"
    and "getValue (ExtDate today) me today = DateV d"
    and "M = ''AM'' \<or> M = ''PM''"
  shows "events (onSelect (ExtDate today) me today M)
           = events me @ [(''select'', DateV (recompute today d M))]
     \<and> (\<forall>f. format me = f @ ''A'' \<longrightarrow> timeFormat f \<longrightarrow>
            rawValue (onSelect (ExtDate today) me today M) = ExtDate_format (DateV d) f
            \<and> meridiemValue (onSelect (ExtDate today) me today M) = Some M)
     \<and> (format me = ''h:iA'' \<or> format me = ''h:i:sA'' \<longrightarrow>
            rawValue (onSelect (ExtDate today) me today M) = display me d
            \<and> meridiemValue (onSelect (ExtDate today) me today M) = Some M)"
proof -
  have "parseDate (ExtDate today) me today (Str (rawValue me)) = DateV d"
    using assms(2) by (auto simp: getValue_def rawToValue_def split: if_splits)
  from parseDate_ExtDate [OF assms(1) this]
  have v: "getMinutes d < 60" "getSeconds d < 60" by (simp_all add: validDate_def)
  let ?nv = "recompute today d M"
  let ?me1 = "setMeridiemValue me M"
  have p: "Date_parse (ExtDate today)
             (Date_format (ExtDate today) (DateV d) ''his'' @ M) ''hisA'' None
           = Some ?nv"
    using ExtDate_parse_hisA [OF v assms(3)] by (simp add: ExtDate_def)
  have m: "(if getHours ?nv < 12 then ''AM'' else ''PM'') = M"
    using assms(3) by (auto simp add: recompute_def)
  have os: "onSelect (ExtDate today) me today M
        = (setValue (ExtDate today) ?me1 today (DateV ?nv))
            \<lparr>events := events (setValue (ExtDate today) ?me1 today (DateV ?nv))
                        @ [(''select'', DateV ?nv)]\<rparr>"
    using assms(2) p by (simp add: onSelect_def Let_def)
  have e: "events (onSelect (ExtDate today) me today M) = events me @ [(''select'', DateV ?nv)]"
    by (simp only: os events_setValue) (simp add: setMeridiemValue_def)
  have g: "rawValue (onSelect (ExtDate today) me today M) = ExtDate_format (DateV d) f
           \<and> meridiemValue (onSelect (ExtDate today) me today M) = Some M"
    if "format me = f @ ''A''" "timeFormat f" for f
  proof -
    from that(1) have f1: "format ?me1 = f @ ''A''" by (simp add: setMeridiemValue_def)
    have "setValue (ExtDate today) ?me1 today (DateV ?nv)
            = ?me1\<lparr>rawValue := ExtDate_format (DateV d) f,
                    fieldValue := Str (ExtDate_format (DateV d) f),
                    meridiemValue := Some M\<rparr>"
      by (simp only: setValue_Date_any [OF f1] m ExtDate_format_recompute [OF that(2)])
    then show ?thesis by (simp only: os) simp
  qed
  have b: "rawValue (onSelect (ExtDate today) me today M) = display me d
           \<and> meridiemValue (onSelect (ExtDate today) me today M) = Some M"
    if "format me = ''h:iA'' \<or> format me = ''h:i:sA''"
  proof -
    from that have f1: "format ?me1 = ''h:iA'' \<or> format ?me1 = ''h:i:sA''"
      by (simp add: setMeridiemValue_def)
    have "setValue (ExtDate today) ?me1 today (DateV ?nv)
            = ?me1\<lparr>rawValue := display me d, fieldValue := Str (display me d),
                    meridiemValue := Some M\<rparr>"
      by (simp only: setValue_Date [OF f1] m display_recompute)
    then show ?thesis by (simp only: os) simp
  qed
  from e g b show ?thesis by blast
qed


theorem onSelect_recomputes_witness:
  "validDate sampleToday
   \<and> getValue (ExtDate sampleToday) sampleField sampleToday
       = DateV \<lparr>getFullYear = 2021, getMonth = 2, getDate = 31, getHours = 15,
           getMinutes = 45, getSeconds = 0, getMilliseconds = 0\<rparr>
   \<and> format sampleField = ''h:i'' @ ''A'' \<and> timeFormat ''h:i''
   \<and> events (onSelect (ExtDate sampleToday) sampleField sampleToday ''AM'')
       = [(''select'', DateV \<lparr>getFullYear = 2021, getMonth = 2, getDate = 31, getHours = 3,
           getMinutes = 45, getSeconds = 0, getMilliseconds = 0\<rparr>)]
   \<and> rawValue (onSelect (ExtDate sampleToday) sampleField sampleToday ''AM'') = ''03:45''
   \<and> meridiemValue (onSelect (ExtDate sampleToday) sampleField sampleToday ''AM'') = Some ''AM''"
proof -
  let ?d = "\<lparr>getFullYear = 2021, getMonth = 2, getDate = 31, getHours = 15,
           getMinutes = 45, getSeconds = 0, getMilliseconds = 0\<rparr>"
  have a: "validDate sampleToday" by code_simp
  have b: "getValue (ExtDate sampleToday) sampleField sampleToday = DateV ?d" by code_simp
  have c: "''AM'' = ''AM'' \<or> ''AM'' = ''PM''" by simp
  have f: "format sampleField = ''h:i'' @ ''A''" by code_simp
  have t: "timeFormat ''h:i''" by code_simp
  have e: "events sampleField @ [(''select'', DateV (recompute sampleToday ?d ''AM''))]
           = [(''select'', DateV \<lparr>getFullYear = 2021, getMonth = 2, getDate = 31, getHours = 3,
           getMinutes = 45, getSeconds = 0, getMilliseconds = 0\<rparr>)]"
    by code_simp
  have g: "ExtDate_format (DateV ?d) ''h:i'' = ''03:45''" by code_simp
  from onSelect_recomputes [OF a b c] f t
  have "events (onSelect (ExtDate sampleToday) sampleField sampleToday ''AM'')
          = events sampleField @ [(''select'', DateV (recompute sampleToday ?d ''AM''))]
        \<and> rawValue (onSelect (ExtDate sampleToday) sampleField sampleToday ''AM'')
            = ExtDate_format (DateV ?d) ''h:i''
        \<and> meridiemValue (onSelect (ExtDate sampleToday) sampleField sampleToday ''AM'')
            = Some ''AM''"
    by blast
  with a b f t show ?thesis by (simp only: e g simp_thms)
qed

text \<open>
  C5 as stated fails under a format that does not show the minutes: with the format
  \<^verbatim>\<open>hA\<close> the typed text 3:45 becomes 03 on selecting AM and the field then reads
  03:00.
\<close>

theorem onSelect_hour_format_counterexample:
  "getValue (ExtDate sampleToday) sampleHourOnly sampleToday
     = DateV \<lparr>getFullYear = 2021, getMonth = 2, getDate = 31, getHours = 15,
         getMinutes = 45, getSeconds = 0, getMilliseconds = 0\<rparr>
   \<and> rawValue sampleHourOnly = ''3:45''
   \<and> rawValue (onSelect (ExtDate sampleToday) sampleHourOnly sampleToday ''AM'') = ''03''
   \<and> getValue (ExtDate sampleToday)
         (onSelect (ExtDate sampleToday) sampleHourOnly sampleToday ''AM'') sampleToday
       = DateV \<lparr>getFullYear = 2021, getMonth = 2, getDate = 31, getHours = 3,
           getMinutes = 0, getSeconds = 0, getMilliseconds = 0\<rparr>"
  by code_simp

section \<open>The round trip\<close>

lemma matchFormat_hiA:
  assumes "1 \<le> h" "h \<le> 12" "mi < 60"
  shows "matchFormat ''h:iA'' (leftPad2 h @ '':'' @ leftPad2 mi @ ''AM'') []
           = [[Hour h, Minute mi, Meridiem True]]"
    and "matchFormat ''h:iA'' (leftPad2 h @ '':'' @ leftPad2 mi @ ''PM'') []
           = [[Hour h, Minute mi, Meridiem False]]"
  using assms codeAlts_A [of "[]"]
  by (simp_all add: codeAlts_h codeAlts_i codeAlts_colon)

lemma matchFormat_h_i_sA:
  assumes "1 \<le> h" "h \<le> 12" "mi < 60" "s < 60"
  shows "matchFormat ''h:i:sA'' (leftPad2 h @ '':'' @ leftPad2 mi @ '':'' @ leftPad2 s @ ''AM'') []
           = [[Hour h, Minute mi, Second s, Meridiem True]]"
    and "matchFormat ''h:i:sA'' (leftPad2 h @ '':'' @ leftPad2 mi @ '':'' @ leftPad2 s @ ''PM'') []
           = [[Hour h, Minute mi, Second s, Meridiem False]]"
  using assms codeAlts_A [of "[]"]
  by (simp_all add: codeAlts_h codeAlts_i codeAlts_s codeAlts_colon)

lemma hour_back:
  assumes "getHours d < 24"
  shows "(if getHours d < 12 then (if hour12 d = 0 \<or> hour12 d = 12 then 0 else hour12 d)
          else (if hour12 d < 12 then hour12 d + 12 else hour12 d)) = getHours d"
proof (cases "getHours d < 12")
  case True
  then have "getHours d mod 12 = getHours d" by simp
  with True show ?thesis by (simp add: hour12_def)
next
  case False
  with assms have "getHours d mod 12 = getHours d - 12"
    by (simp add: le_mod_geq)
  with False assms show ?thesis by (auto simp add: hour12_def)
qed

lemma ExtDate_parse_display:
  assumes "getHours d < 24" "getMinutes d < 60" "getSeconds d < 60"
    and "format me = ''h:iA'' \<or> format me = ''h:i:sA''"
  shows "ExtDate_parse today (display me d @ ampm d) (format me) strict
           = Some (reparsed me today d)"
proof -
  have h: "1 \<le> hour12 d" "hour12 d \<le> 12" using hour12_range [of d] by simp_all
  note hb = hour_back [OF assms(1)]
  from assms(4) show ?thesis
  proof
    assume f: "format me = ''h:iA''"
    show ?thesis
    proof (cases "getHours d < 12")
      case True
      have "ExtDate_parse today ((leftPad2 (hour12 d) @ '':'' @ leftPad2 (getMinutes d)) @ ''AM'')
              ''h:iA'' strict = Some (reparsed me today d)"
        unfolding append_assoc
        by (subst ExtDate_parse_caps [OF matchFormat_hiA(1) [OF h assms(2)]])
           (use hb True f in \<open>auto simp add: fromDefault_def reparsed_def split: if_splits\<close>)
      with True f show ?thesis by (simp add: display_def ampm_def)
    next
      case False
      have "ExtDate_parse today ((leftPad2 (hour12 d) @ '':'' @ leftPad2 (getMinutes d)) @ ''PM'')
              ''h:iA'' strict = Some (reparsed me today d)"
        unfolding append_assoc
        by (subst ExtDate_parse_caps [OF matchFormat_hiA(2) [OF h assms(2)]])
           (use hb False f in \<open>auto simp add: fromDefault_def reparsed_def split: if_splits\<close>)
      with False f show ?thesis by (simp add: display_def ampm_def)
    qed
  next
    assume f: "format me = ''h:i:sA''"
    show ?thesis
    proof (cases "getHours d < 12")
      case True
      have "ExtDate_parse today
              ((leftPad2 (hour12 d) @ '':'' @ leftPad2 (getMinutes d) @ '':''
                 @ leftPad2 (getSeconds d)) @ ''AM'')
              ''h:i:sA'' strict = Some (reparsed me today d)"
        unfolding append_assoc
        by (subst ExtDate_parse_caps [OF matchFormat_h_i_sA(1) [OF h assms(2,3)]])
           (use hb True f in \<open>auto simp add: fromDefault_def reparsed_def split: if_splits\<close>)
      with True f show ?thesis by (simp add: display_def ampm_def)
    next
      case False
      have "ExtDate_parse today
              ((leftPad2 (hour12 d) @ '':'' @ leftPad2 (getMinutes d) @ '':''
                 @ leftPad2 (getSeconds d)) @ ''PM'')
              ''h:i:sA'' strict = Some (reparsed me today d)"
        unfolding append_assoc
        by (subst ExtDate_parse_caps [OF matchFormat_h_i_sA(2) [OF h assms(2,3)]])
           (use hb False f in \<open>auto simp add: fromDefault_def reparsed_def split: if_splits\<close>)
      with False f show ?thesis by (simp add: display_def ampm_def)
    qed
  qed
qed

lemma showNat_nonempty: "showNat n \<noteq> []"
  by (subst showNat.simps) simp

lemma display_nonempty: "display me d \<noteq> []"
  by (simp add: display_def leftPad2_def showNat_nonempty)

text \<open>
  The path that stores a value: setValue splits the formatted text into the text without
  its meridiem and the meridiem, so reading the field back (getValue, which re-parses
  the text) gives the same time under the built-in formats.
\<close>

lemma setValue_getValue_roundtrip:
  assumes "validDate today"
    and "(format me = ''h:iA'' \<and> \<not> captureSeconds me)
         \<or> (format me = ''h:i:sA'' \<and> captureSeconds me)"
    and "parseDate (ExtDate today) me today (Str x) = DateV d"
  shows "formatDate (ExtDate today) me (DateV d) = Str (display me d @ ampm d)
     \<and> getValue (ExtDate today) (setValue (ExtDate today) me today (DateV d)) today = DateV d"
proof -
  from parseDate_ExtDate [OF assms(1,3)]
  have v: "validDate d" "sameDay d today" "getMilliseconds d = 0"
    "\<not> captureSeconds me \<Longrightarrow> getSeconds d = 0"
    by simp_all
  from v(1) have r: "getHours d < 24" "getMinutes d < 60" "getSeconds d < 60"
    by (simp_all add: validDate_def)
  from assms(2) have f: "format me = ''h:iA'' \<or> format me = ''h:i:sA''" by blast
  let ?me' = "me\<lparr>rawValue := display me d, fieldValue := Str (display me d),
                  meridiemValue := Some (ampm d)\<rparr>"
  have sv: "setValue (ExtDate today) me today (DateV d) = ?me'"
    by (simp only: setValue_Date [OF f] ampm_def)
  have fd: "formatDate (ExtDate today) me (DateV d) = Str (display me d @ ampm d)"
    using valueToRaw_Date [OF f, of today d]
    by (simp add: valueToRaw_def parseDate_DateV ampm_def)
  have p: "Date_parse (ExtDate today) (display me d @ toStr (meridiemValue ?me'))
             (format ?me') (useStrict ?me') = Some (reparsed me today d)"
    using ExtDate_parse_display [OF r f] by (simp add: ExtDate_def)
  have vr: "validDate (reparsed me today d)"
    using assms(1) r by (simp add: validDate_def reparsed_def)
  have kr: "keepsDay today (reparsed me today d)"
    by (rule sameDay_keepsDay [OF assms(1)]) (simp add: sameDay_def reparsed_def)
  have eq: "cleared ?me' today (reparsed me today d) = d"
    using v assms(2) by (auto simp add: cleared_def reparsed_def sameDay_def)
  have "parseDate (ExtDate today) ?me' today (Str (display me d)) = DateV d"
    using p clearDate_cleared [OF assms(1) vr kr, of ?me'] eq
    by (simp add: parseDate_Str [OF display_nonempty])
  then have "getValue (ExtDate today) ?me' today = DateV d"
    by (simp add: getValue_def rawToValue_def)
  with fd sv show ?thesis by simp
qed

lemma colon_facts:
  "\<not> isDigit CHR '':''" "toUpper CHR '':'' = CHR '':''"
  "toUpper CHR ''A'' = CHR ''A''" "toUpper CHR ''P'' = CHR ''P''" "toUpper CHR ''M'' = CHR ''M''"
  by (simp_all add: isDigit_def toUpper_def)

lemma digitChar_not_colon: "n < 10 \<Longrightarrow> digitChar n \<noteq> CHR '':''"
proof
  assume "n < 10" "digitChar n = CHR '':''"
  then have "(of_char (digitChar n) :: nat) = of_char CHR '':''" by simp
  with \<open>n < 10\<close> show False by (simp add: of_char_digitChar)
qed

lemma digitChar_not_M: "n < 10 \<Longrightarrow> digitChar n \<noteq> CHR ''M''"
proof
  assume "n < 10" "digitChar n = CHR ''M''"
  then have "(of_char (digitChar n) :: nat) = of_char CHR ''M''" by simp
  with \<open>n < 10\<close> show False by (simp add: of_char_digitChar)
qed

lemma reparse_no_match:
  assumes "a < 10" "b < 10" "c < 10" "e < 10" "X = CHR ''A'' \<or> X = CHR ''P''" "M \<noteq> []"
  shows "matchFormat ''h:iA''
           (digitChar a # digitChar b # CHR '':'' # digitChar c # digitChar e # X # CHR ''M'' # M) []
         = []"
    and "matchFormat ''hiA''
           (digitChar a # digitChar b # CHR '':'' # digitChar c # digitChar e # X # CHR ''M'' # M) []
         = []"
    and "matchFormat ''g:iA''
           (digitChar a # digitChar b # CHR '':'' # digitChar c # digitChar e # X # CHR ''M'' # M) []
         = []"
    and "matchFormat ''giA''
           (digitChar a # digitChar b # CHR '':'' # digitChar c # digitChar e # X # CHR ''M'' # M) []
         = []"
    and "matchFormat ''hA''
           (digitChar a # digitChar b # CHR '':'' # digitChar c # digitChar e # X # CHR ''M'' # M) []
         = []"
    and "matchFormat ''gA''
           (digitChar a # digitChar b # CHR '':'' # digitChar c # digitChar e # X # CHR ''M'' # M) []
         = []"
  using assms
  by (auto simp add: codeAlts_def colon_facts isDigit_digitChar toUpper_digitChar
        digitChar_not_colon digitChar_not_M split: list.splits)

lemma split_default_altFormats:
  "split CHR ''|'' ''h:iA|hiA|g:iA|giA|hA|gA''
     = [''h:iA'', ''hiA'', ''g:iA'', ''giA'', ''hA'', ''gA'']"
  by simp

lemma ExtDate_parse_formatted_none:
  assumes "getHours d < 24" "getMinutes d < 60" "M \<noteq> []"
    and "f \<in> set [''h:iA'', ''hiA'', ''g:iA'', ''giA'', ''hA'', ''gA'']"
  shows "ExtDate_parse today
           ((leftPad2 (hour12 d) @ '':'' @ leftPad2 (getMinutes d) @ ampm d) @ M) f strict = None"
proof -
  have h: "hour12 d < 100" using hour12_range [of d] by simp
  have m: "getMinutes d < 100" using assms(2) by simp
  have dg: "hour12 d div 10 < 10" "hour12 d mod 10 < 10"
    "getMinutes d div 10 < 10" "getMinutes d mod 10 < 10"
    using h m by simp_all
  define X where "X = (if getHours d < 12 then CHR ''A'' else CHR ''P'')"
  have x: "X = CHR ''A'' \<or> X = CHR ''P''" by (simp add: X_def)
  have t: "(leftPad2 (hour12 d) @ '':'' @ leftPad2 (getMinutes d) @ ampm d) @ M
           = digitChar (hour12 d div 10) # digitChar (hour12 d mod 10) # CHR '':''
             # digitChar (getMinutes d div 10) # digitChar (getMinutes d mod 10)
             # X # CHR ''M'' # M"
    by (simp add: leftPad2_digits [OF h] leftPad2_digits [OF m] ampm_def X_def)
  note nm = reparse_no_match [OF dg x assms(3)]
  from assms(4) have "f = ''h:iA'' \<or> f = ''hiA'' \<or> f = ''g:iA'' \<or> f = ''giA''
                      \<or> f = ''hA'' \<or> f = ''gA''"
    by simp
  then have "matchFormat f
               (digitChar (hour12 d div 10) # digitChar (hour12 d mod 10) # CHR '':''
                # digitChar (getMinutes d div 10) # digitChar (getMinutes d mod 10)
                # X # CHR ''M'' # M) [] = []"
    using nm by (elim disjE) (simp_all only:)
  then show ?thesis
    unfolding t by (simp only: ExtDate_parse_def list.case)
qed

text \<open>
  C6: under the configuration the source ships (format \<^verbatim>\<open>h:iA\<close> and its
  fallbacks) and any meridiem value but the empty string, the formatted text of every
  value parseDate returns is its canonical 12-hour text followed by AM or PM, and this
  text does not re-parse: parseDate appends the meridiem value to a text that already
  ends with a meridiem, no format matches, and the result is null. getErrors takes this
  very path for a candidate that is a Date and reports a valid time as invalid.
\<close>

theorem formatted_text_never_reparses:
  assumes "validDate today"
    and "format me = ''h:iA''" and "altFormats me = ''h:iA|hiA|g:iA|giA|hA|gA''"
    and "altFormatsArray me = None" and "meridiemValue me \<noteq> Some []"
    and "parseDate (ExtDate today) me today (Str x) = DateV d"
  shows "formatDate (ExtDate today) me (DateV d) = Str (display me d @ ampm d)
     \<and> parseDate (ExtDate today) me today (formatDate (ExtDate today) me (DateV d)) = Null
     \<and> getErrors (ExtDate today) me today errors (DateV d)
         = Inr (errors @ [invalidMessage me (display me d @ ampm d)])"
proof -
  from parseDate_ExtDate [OF assms(1,6)]
  have v: "validDate d" by simp
  then have r: "getHours d < 24" "getMinutes d < 60" by (simp_all add: validDate_def)
  have f: "format me = ''h:iA'' \<or> format me = ''h:i:sA''" using assms(2) by simp
  have fd: "formatDate (ExtDate today) me (DateV d) = Str (display me d @ ampm d)"
    using valueToRaw_Date [OF f, of today d]
    by (simp add: valueToRaw_def parseDate_DateV ampm_def)
  have M: "toStr (meridiemValue me) \<noteq> []"
    using assms(5) by (cases "meridiemValue me") simp_all
  have dsp: "display me d = leftPad2 (hour12 d) @ '':'' @ leftPad2 (getMinutes d)"
    using assms(2) by (simp add: display_def)
  have fb: "format me # fallbackFormats me
            = [''h:iA'', ''h:iA'', ''hiA'', ''g:iA'', ''giA'', ''hA'', ''gA'']"
    using assms(2,3,4) by (simp add: fallbackFormats_def split_default_altFormats)
  have "\<forall>f\<in>set (format me # fallbackFormats me).
          Date_parse (ExtDate today) ((display me d @ ampm d) @ toStr (meridiemValue me)) f
            (useStrict me) = None"
    unfolding fb dsp
    using ExtDate_parse_formatted_none [OF r M] by (simp add: ExtDate_def)
  then have "firstParse (ExtDate today) ((display me d @ ampm d) @ toStr (meridiemValue me))
               (useStrict me) (format me # fallbackFormats me) = None"
    by (simp only: firstParse_None_iff)
  moreover have ne: "display me d @ ampm d \<noteq> []"
    using display_nonempty by simp
  ultimately have pn: "parseDate (ExtDate today) me today (Str (display me d @ ampm d)) = Null"
    by (simp add: parseDate_Str)
  have ge: "getErrors (ExtDate today) me today errors (DateV d)
         = Inr (errors @ [invalidMessage me (display me d @ ampm d)])"
    using fd pn ne by (simp add: getErrors_def candidate_def)
  from fd pn ge show ?thesis by simp
qed

theorem formatted_text_never_reparses_witness:
  "validDate sampleToday
   \<and> format sampleInit = ''h:iA'' \<and> altFormats sampleInit = ''h:iA|hiA|g:iA|giA|hA|gA''
   \<and> altFormatsArray sampleInit = None \<and> meridiemValue sampleInit \<noteq> Some []
   \<and> parseDate (ExtDate sampleToday) sampleInit sampleToday (Str ''3:45'')
       = DateV \<lparr>getFullYear = 2021, getMonth = 2, getDate = 31, getHours = 15,
           getMinutes = 45, getSeconds = 0, getMilliseconds = 0\<rparr>
   \<and> formatDate (ExtDate sampleToday) sampleInit
         (DateV \<lparr>getFullYear = 2021, getMonth = 2, getDate = 31, getHours = 15,
           getMinutes = 45, getSeconds = 0, getMilliseconds = 0\<rparr>) = Str ''03:45PM''
   \<and> parseDate (ExtDate sampleToday) sampleInit sampleToday (Str ''03:45PM'') = Null
   \<and> getErrors (ExtDate sampleToday) sampleInit sampleToday []
         (DateV \<lparr>getFullYear = 2021, getMonth = 2, getDate = 31, getHours = 15,
           getMinutes = 45, getSeconds = 0, getMilliseconds = 0\<rparr>)
       = Inr [''03:45PM PM is not a valid time - it must be in the format HH:MM AM/PM'']"
proof -
  let ?d = "\<lparr>getFullYear = 2021, getMonth = 2, getDate = 31, getHours = 15,
           getMinutes = 45, getSeconds = 0, getMilliseconds = 0\<rparr>"
  have a: "validDate sampleToday" by code_simp
  have b: "format sampleInit = ''h:iA''" by code_simp
  have c: "altFormats sampleInit = ''h:iA|hiA|g:iA|giA|hA|gA''" by code_simp
  have e: "altFormatsArray sampleInit = None" by code_simp
  have f: "meridiemValue sampleInit \<noteq> Some []" by code_simp
  have g: "parseDate (ExtDate sampleToday) sampleInit sampleToday (Str ''3:45'') = DateV ?d"
    by code_simp
  have t: "display sampleInit ?d @ ampm ?d = ''03:45PM''" by code_simp
  have m: "[] @ [invalidMessage sampleInit ''03:45PM'']
           = [''03:45PM PM is not a valid time - it must be in the format HH:MM AM/PM'']"
    by code_simp
  note th = formatted_text_never_reparses [OF a b c e f g, of "[]"]
  from th have fd: "formatDate (ExtDate sampleToday) sampleInit (DateV ?d) = Str ''03:45PM''"
    by (simp only: t)
  from th have "parseDate (ExtDate sampleToday) sampleInit sampleToday
                  (formatDate (ExtDate sampleToday) sampleInit (DateV ?d)) = Null"
    by blast
  then have pn: "parseDate (ExtDate sampleToday) sampleInit sampleToday (Str ''03:45PM'') = Null"
    by (simp only: fd)
  from th have ge: "getErrors (ExtDate sampleToday) sampleInit sampleToday [] (DateV ?d)
         = Inr [''03:45PM PM is not a valid time - it must be in the format HH:MM AM/PM'']"
    by (simp only: t m)
  from fd pn ge
  have "formatDate (ExtDate sampleToday) sampleInit (DateV ?d) = Str ''03:45PM''
     \<and> parseDate (ExtDate sampleToday) sampleInit sampleToday (Str ''03:45PM'') = Null
     \<and> getErrors (ExtDate sampleToday) sampleInit sampleToday [] (DateV ?d)
         = Inr [''03:45PM PM is not a valid time - it must be in the format HH:MM AM/PM'']"
    by (simp only: simp_thms)
  with a b c e f g show ?thesis by (simp only: simp_thms)
qed

end
